theory Spec2Isabelle
  imports Complex_Main
begin

section \<open>A fully-connected autoencoder and its training driver\<close>

text \<open>
  This theory embeds \<^verbatim>\<open>src/autoencoder.py\<close>: the class \<^verbatim>\<open>AE\<close>, the function
  \<^verbatim>\<open>train_autoencoder\<close> and the \<^verbatim>\<open>__main__\<close> block.

  The program orchestrates calls into a tensor library. What the theory fixes about that
  library:
  \<^item> a tensor is its shape, its elements in row-major order and the device it lives on;
    only dense, contiguous tensors whose element type is that of the model's parameters
    are represented (neither the layout in memory nor the \<^verbatim>\<open>dtype\<close> is modelled), so a
    statement about every tensor is a statement about every tensor of that kind;
  \<^item> the elements are idealised as members of an ordered field \<open>'a\<close>; rounding, infinities
    and NaN of floating-point numbers are not modelled, so every statement about a loss
    value is a statement about the formula that is evaluated, not about its rounding;
  \<^item> every exception is a value of \<open>error\<close>, named after the Python exception class;
  \<^item> the random initial parameters, the optimiser update and the shuffling permutation
    are parameters of the model (record \<open>torch\<close> below and the argument \<open>init\<close> of the
    constructor);
  \<^item> the machine is assumed to have the memory for every tensor that the library agrees
    to allocate;
  \<^item> the devices that are named are assumed to exist on the machine, and so are the
    module \<^verbatim>\<open>nmastandard\<close> and its functions, which are not among the sources;
  \<^item> the progress bar that \<^verbatim>\<open>trange\<close> draws is not part of the model: it iterates like
    \<^verbatim>\<open>range\<close>.
\<close>

subsection \<open>Errors\<close>

datatype error = IndexError | RuntimeError | ValueError | NameError | TypeError

definition ebind :: "error + 'a \<Rightarrow> ('a \<Rightarrow> error + 'b) \<Rightarrow> error + 'b" where
  "ebind m f = (case m of Inl e \<Rightarrow> Inl e | Inr x \<Rightarrow> f x)"

subsection \<open>Tensors\<close>

datatype device = CPU | CUDA

record 'a tensor =
  shape :: "nat list"
  data :: "'a list"
  dev :: device

definition numel :: "'a tensor \<Rightarrow> nat" where
  "numel t = prod_list (shape t)"

text \<open>\<^verbatim>\<open>x.size(0)\<close>: a 0-dimensional tensor has no dimension 0.\<close>

definition size0 :: "'a tensor \<Rightarrow> error + nat" where
  "size0 t = (case shape t of [] \<Rightarrow> Inl IndexError | n # _ \<Rightarrow> Inr n)"

text \<open>\<^verbatim>\<open>len(x)\<close>: a 0-dimensional tensor has no length.\<close>

definition len :: "'a tensor \<Rightarrow> error + nat" where
  "len t = (case shape t of [] \<Rightarrow> Inl TypeError | n # _ \<Rightarrow> Inr n)"

text \<open>
  \<^verbatim>\<open>x.view(n, -1)\<close>: the library infers the second dimension as \<open>numel x / n\<close>. It
  refuses \<open>n = 0\<close> (the inferred dimension would be ambiguous, or the shape invalid) and
  an \<open>n\<close> that does not divide the number of elements.
\<close>

definition view_rows :: "'a tensor \<Rightarrow> nat \<Rightarrow> error + 'a tensor" where
  "view_rows t n =
     (if n = 0 then Inl RuntimeError
      else if numel t mod n \<noteq> 0 then Inl RuntimeError
      else Inr (t\<lparr>shape := [n, numel t div n]\<rparr>))"

text \<open>\<^verbatim>\<open>x.view(s)\<close> for an explicit shape \<open>s\<close>: the number of elements must agree.\<close>

definition view :: "'a tensor \<Rightarrow> nat list \<Rightarrow> error + 'a tensor" where
  "view t s = (if prod_list s = numel t then Inr (t\<lparr>shape := s\<rparr>) else Inl RuntimeError)"

text \<open>\<^verbatim>\<open>x.to(d)\<close>.\<close>

definition to :: "'a tensor \<Rightarrow> device \<Rightarrow> 'a tensor" where
  "to t d = t\<lparr>dev := d\<rparr>"

subsection \<open>Layers\<close>

text \<open>
  \<^verbatim>\<open>nn.Linear(in_features, out_features, bias=True)\<close> holds a weight matrix of
  \<open>out_features\<close> rows and \<open>in_features\<close> columns and a bias vector; \<^verbatim>\<open>nn.ReLU()\<close> holds
  nothing.
\<close>

datatype 'a layer = Linear nat nat "'a list list" "'a list option" | ReLU

text \<open>
  The constructor of \<^verbatim>\<open>nn.Linear\<close> draws its parameters at random. The draw is the
  argument \<open>p\<close>: the weight at row \<open>r\<close> and column \<open>c\<close> is \<open>fst p r c\<close>, the bias at \<open>r\<close> is
  \<open>snd p r\<close>.
\<close>

type_synonym 'a params = "(nat \<Rightarrow> nat \<Rightarrow> 'a) \<times> (nat \<Rightarrow> 'a)"

definition nn_Linear :: "'a params \<Rightarrow> nat \<Rightarrow> nat \<Rightarrow> 'a layer" where
  "nn_Linear p i out =
     Linear i out (map (\<lambda>r. map (fst p r) [0..<i]) [0..<out]) (Some (map (snd p) [0..<out]))"

definition dot :: "'a::linordered_field list \<Rightarrow> 'a list \<Rightarrow> 'a" where
  "dot u v = sum_list (map2 (*) u v)"

text \<open>The rows of a row-major element list: \<open>n\<close> rows of \<open>d\<close> elements.\<close>

definition rows_of :: "nat \<Rightarrow> nat \<Rightarrow> 'a list \<Rightarrow> 'a list list" where
  "rows_of n d xs = map (\<lambda>r. take d (drop (r * d) xs)) [0..<n]"

text \<open>One input row through an affine map: \<open>W x + b\<close>.\<close>

definition affine :: "'a::linordered_field list list \<Rightarrow> 'a list option \<Rightarrow> 'a list \<Rightarrow> 'a list" where
  "affine W b x =
     (case b of None \<Rightarrow> map (\<lambda>w. dot w x) W
      | Some bs \<Rightarrow> map2 (+) (map (\<lambda>w. dot w x) W) bs)"

text \<open>
  Applying a layer whose parameters are on device \<open>d\<close>. A linear layer acts on the last
  dimension, which must be \<open>in_features\<close>, and needs its input on its own device.
\<close>

fun layer_fwd :: "device \<Rightarrow> 'a::linordered_field layer \<Rightarrow> 'a tensor \<Rightarrow> error + 'a tensor" where
  "layer_fwd d (Linear i out W b) x =
     (if shape x = [] \<or> last (shape x) \<noteq> i \<or> dev x \<noteq> d then Inl RuntimeError
      else Inr \<lparr>shape = butlast (shape x) @ [out],
                data = concat (map (affine W b) (rows_of (prod_list (butlast (shape x))) i (data x))),
                dev = dev x\<rparr>)"
| "layer_fwd d ReLU x = Inr (x\<lparr>data := map (max 0) (data x)\<rparr>)"

text \<open>\<^verbatim>\<open>nn.Sequential(*layers)(x)\<close>: the layers in order, stopping at the first error.\<close>

fun Sequential :: "device \<Rightarrow> 'a::linordered_field layer list \<Rightarrow> 'a tensor \<Rightarrow> error + 'a tensor" where
  "Sequential d [] x = Inr x"
| "Sequential d (l # ls) x = ebind (layer_fwd d l x) (Sequential d ls)"

subsection \<open>The class AE\<close>

record 'a AE =
  in_dim :: nat
  out_dim :: nat
  enc_model :: "'a layer list"
  dec_model :: "'a layer list"
  placed :: device

text \<open>
  The constructor builds the encoder and the decoder with the same three statements:
  \<^verbatim>\<open>
  layers_a = [[nn.Linear(a, lst[0], bias=True), nn.ReLU()]]
  layers_a += [[nn.Linear(lst[idim], lst[idim+1], bias=True), nn.ReLU()]
               for idim in range(len(lst)-1)]
  layers_a += [[nn.Linear(lst[-1], b, bias=True)]]
  \<close>
  followed by the concatenation of \<^verbatim>\<open>layers_a\<close>. \<open>lst[0]\<close> raises IndexError on an empty
  list; the indices of the comprehension are in range by construction. \<open>init k\<close> is the
  random draw of the \<open>k\<close>-th linear layer that is created.
\<close>

definition mlp_layers ::
  "(nat \<Rightarrow> 'a params) \<Rightarrow> nat \<Rightarrow> nat \<Rightarrow> nat list \<Rightarrow> nat \<Rightarrow> error + 'a layer list" where
  "mlp_layers init k a lst b =
     (if lst = [] then Inl IndexError
      else Inr (concat
        ([[nn_Linear (init k) a (lst ! 0), ReLU]] @
         map (\<lambda>idim. [nn_Linear (init (k + 1 + idim)) (lst ! idim) (lst ! (idim + 1)), ReLU])
           [0..<length lst - 1] @
         [[nn_Linear (init (k + length lst)) (last lst) b]])))"

definition AE_init ::
  "(nat \<Rightarrow> 'a params) \<Rightarrow> nat \<Rightarrow> nat \<Rightarrow> nat list \<Rightarrow> nat list \<Rightarrow> error + 'a AE" where
  "AE_init init in_d latent_dim enc_lst dec_lst =
     ebind (mlp_layers init 0 in_d enc_lst latent_dim) (\<lambda>enc_layers.
     ebind (mlp_layers init (length enc_lst + 1) latent_dim dec_lst in_d) (\<lambda>dec_layers.
       Inr \<lparr>in_dim = in_d, out_dim = in_d, enc_model = enc_layers, dec_model = dec_layers,
            placed = CPU\<rparr>))"

definition encode :: "'a::linordered_field AE \<Rightarrow> 'a tensor \<Rightarrow> error + 'a tensor" where
  "encode ae x = Sequential (placed ae) (enc_model ae) x"

definition decode :: "'a::linordered_field AE \<Rightarrow> 'a tensor \<Rightarrow> error + 'a tensor" where
  "decode ae l = Sequential (placed ae) (dec_model ae) l"

text \<open>
  \<^verbatim>\<open>
  flat_x = x.view(x.size(0), -1)
  h = self.encode(flat_x)
  return self.decode(h).view(x.size())
  \<close>
\<close>

definition forward :: "'a::linordered_field AE \<Rightarrow> 'a tensor \<Rightarrow> error + 'a tensor" where
  "forward ae x =
     ebind (size0 x) (\<lambda>n.
     ebind (view_rows x n) (\<lambda>flat_x.
     ebind (encode ae flat_x) (\<lambda>h.
     ebind (decode ae h) (\<lambda>y. view y (shape x)))))"

text \<open>\<^verbatim>\<open>autoencoder.to(d)\<close> moves every parameter of the module to \<open>d\<close>.\<close>

definition AE_to :: "'a AE \<Rightarrow> device \<Rightarrow> 'a AE" where
  "AE_to ae d = ae\<lparr>placed := d\<rparr>"

subsection \<open>What the driver takes from the library and from the module\<close>

text \<open>
  The optimiser and the shuffling sampler are library code. \<open>Adam\<close> is the optimiser's
  initial state for a model; \<open>backward_step\<close> stands for
  \<^verbatim>\<open>loss.backward(); optim.step()\<close> and returns the new value of every parameter
  (indexed like the constructor's draw: the \<open>k\<close>-th linear layer of the module) together
  with the optimiser's new state; \<open>randperm seed epoch n\<close> is the order in which the
  sampler, seeded with \<open>seed\<close>, visits the \<open>n\<close> examples in the given epoch.
\<close>

record ('a, 'o) torch =
  Adam :: "'a AE \<Rightarrow> 'o"
  backward_step :: "'o \<Rightarrow> 'a AE \<Rightarrow> 'a tensor \<Rightarrow> (nat \<Rightarrow> 'a params) \<times> 'o"
  randperm :: "int \<Rightarrow> nat \<Rightarrow> nat \<Rightarrow> nat list"

text \<open>The sampler yields each example exactly once per epoch.\<close>

definition sampler_ok :: "('a, 'o) torch \<Rightarrow> bool" where
  "sampler_ok L \<longleftrightarrow> (\<forall>seed epoch n. distinct (randperm L seed epoch n) \<and>
       set (randperm L seed epoch n) = {0..<n})"

text \<open>
  The module-level names that \<^verbatim>\<open>train_autoencoder\<close> reads: \<^verbatim>\<open>DEVICE\<close> is bound only
  once the \<^verbatim>\<open>__main__\<close> block has run.
\<close>

record globals =
  DEVICE :: "device option"

text \<open>
  An optimiser step writes new values into the parameters in place: the layers, their
  sizes and the presence of a bias stay.
\<close>

fun load_params :: "(nat \<Rightarrow> 'a params) \<Rightarrow> nat \<Rightarrow> 'a layer list \<Rightarrow> 'a layer list" where
  "load_params p k [] = []"
| "load_params p k (Linear i out W b # ls) =
     Linear i out (map (\<lambda>r. map (fst (p k) r) [0..<i]) [0..<out])
       (map_option (\<lambda>_. map (snd (p k)) [0..<out]) b) # load_params p (Suc k) ls"
| "load_params p k (ReLU # ls) = ReLU # load_params p k ls"

fun count_linear :: "'a layer list \<Rightarrow> nat" where
  "count_linear [] = 0"
| "count_linear (Linear i out W b # ls) = Suc (count_linear ls)"
| "count_linear (ReLU # ls) = count_linear ls"

definition AE_load :: "(nat \<Rightarrow> 'a params) \<Rightarrow> 'a AE \<Rightarrow> 'a AE" where
  "AE_load p ae =
     ae\<lparr>enc_model := load_params p 0 (enc_model ae),
        dec_model := load_params p (count_linear (enc_model ae)) (dec_model ae)\<rparr>"

subsection \<open>The data loader\<close>

text \<open>
  \<^verbatim>\<open>DataLoader(dataset, batch_size=batch_size, shuffle=True, pin_memory=True, ...)\<close>
  with the default \<^verbatim>\<open>drop_last=False\<close>: the epoch's permutation is cut into consecutive
  groups of \<open>batch_size\<close> indices, the last group keeping what is left, and the examples of
  a group are stacked along a new first dimension. Pinning the batches needs a dataset
  held on the CPU.
\<close>

fun chunks :: "nat \<Rightarrow> 'b list \<Rightarrow> 'b list list" where
  "chunks b xs = (if b = 0 \<or> xs = [] then [] else take b xs # chunks b (drop b xs))"

declare chunks.simps [simp del]

definition stack_rows :: "'a tensor \<Rightarrow> nat list \<Rightarrow> 'a tensor" where
  "stack_rows ds idxs =
     (let r = prod_list (tl (shape ds))
      in \<lparr>shape = length idxs # tl (shape ds),
          data = concat (map (\<lambda>j. take r (drop (j * r) (data ds))) idxs),
          dev = CPU\<rparr>)"

definition loader ::
  "('a, 'o) torch \<Rightarrow> int \<Rightarrow> 'a tensor \<Rightarrow> nat \<Rightarrow> nat \<Rightarrow> nat \<Rightarrow> error + 'a tensor list" where
  "loader L seed dataset n batch_size epoch =
     (if dev dataset \<noteq> CPU then Inl RuntimeError
      else Inr (map (stack_rows dataset) (chunks batch_size (randperm L seed epoch n))))"

subsection \<open>Losses and the loss buffers\<close>

text \<open>\<^verbatim>\<open>torch.zeros(n, device=d)\<close>.\<close>

definition zeros :: "nat \<Rightarrow> device \<Rightarrow> 'a::linordered_field tensor" where
  "zeros n d = \<lparr>shape = [n], data = replicate n 0, dev = d\<rparr>"

text \<open>\<^verbatim>\<open>t[k] = v\<close> and \<^verbatim>\<open>t[k]\<close> on the 1-dimensional buffers of the driver.\<close>

definition setitem :: "'a tensor \<Rightarrow> nat \<Rightarrow> 'a \<Rightarrow> error + 'a tensor" where
  "setitem t k v =
     ebind (size0 t) (\<lambda>n. if k < n then Inr (t\<lparr>data := (data t)[k := v]\<rparr>) else Inl IndexError)"

definition getitem :: "'a tensor \<Rightarrow> nat \<Rightarrow> error + 'a" where
  "getitem t k = ebind (size0 t) (\<lambda>n. if k < n then Inr (data t ! k) else Inl IndexError)"

text \<open>
  \<^verbatim>\<open>nn.MSELoss()(input, target)\<close>: the mean of the squared differences. The driver only
  calls it on two tensors of one shape; for other pairs the library would try to
  broadcast, which the model reports as an error. On tensors without elements the
  library's mean is NaN; the idealised field has no such value and the quotient is \<open>0\<close>.
\<close>

definition MSELoss :: "'a::linordered_field tensor \<Rightarrow> 'a tensor \<Rightarrow> error + 'a" where
  "MSELoss input target =
     (if shape input \<noteq> shape target \<or> dev input \<noteq> dev target then Inl RuntimeError
      else Inr (sum_list (map2 (\<lambda>a b. (a - b)\<^sup>2) (data input) (data target))
                  / of_nat (numel input)))"

text \<open>
  The loss of the model over a whole dataset, as the driver computes it twice at the end
  of every epoch (for \<^verbatim>\<open>dataset\<close> and for \<^verbatim>\<open>val_dataset\<close>):
  \<^verbatim>\<open>
  fim_batch = dataset.to(device)
  freconstruction = autoencoder(fim_batch)
  floss = loss_fn(freconstruction.view(fim_batch.size(0), -1),
                  target=fim_batch.view(fim_batch.size(0), -1))
  \<close>
\<close>

definition dataset_loss :: "'a::linordered_field AE \<Rightarrow> device \<Rightarrow> 'a tensor \<Rightarrow> error + 'a" where
  "dataset_loss ae device ds =
     (let fim_batch = to ds device in
      ebind (forward ae fim_batch) (\<lambda>freconstruction.
      ebind (size0 fim_batch) (\<lambda>n.
      ebind (view_rows freconstruction n) (\<lambda>a.
      ebind (view_rows fim_batch n) (\<lambda>b. MSELoss a b)))))"

subsection \<open>The training driver\<close>

datatype 'a line =
  MSE_Train_Loss nat 'a
  | MSE_Val_Loss nat 'a
  | Final_Training_Loss "'a tensor"
  | Final_Validation_Loss "'a tensor option"

text \<open>
  The variables of \<^verbatim>\<open>train_autoencoder\<close> that change while it runs, and what it has
  printed; \<open>ix\<close> is the source's step counter \<^verbatim>\<open>i\<close>.
\<close>

record ('a, 'o) train_state =
  autoencoder :: "'a AE"
  optim :: 'o
  mse_loss :: "'a tensor"
  full_mse_loss :: "'a tensor"
  full_val_loss :: "'a tensor option"
  ix :: nat
  stdout :: "'a line list"

fun foldM :: "('s \<Rightarrow> 'b \<Rightarrow> error + 's) \<Rightarrow> 's \<Rightarrow> 'b list \<Rightarrow> error + 's" where
  "foldM f s [] = Inr s"
| "foldM f s (x # xs) = ebind (f s x) (\<lambda>s'. foldM f s' xs)"

text \<open>
  The body of the loop over the batches:
  \<^verbatim>\<open>
  im_batch = im_batch.to(device)
  optim.zero_grad()
  reconstruction = autoencoder(im_batch)
  loss = loss_fn(reconstruction.view(batch_size, -1), target=im_batch.view(batch_size, -1))
  loss.backward()
  optim.step()
  mse_loss[i] = loss.detach()
  i += 1
  \<close>
\<close>

definition train_step ::
  "('a::linordered_field, 'o) torch \<Rightarrow> device \<Rightarrow> nat \<Rightarrow> ('a, 'o) train_state \<Rightarrow> 'a tensor
     \<Rightarrow> error + ('a, 'o) train_state" where
  "train_step L device batch_size st batch =
     (let im_batch = to batch device in
      ebind (forward (autoencoder st) im_batch) (\<lambda>reconstruction.
      ebind (view_rows reconstruction batch_size) (\<lambda>a.
      ebind (view_rows im_batch batch_size) (\<lambda>b.
      ebind (MSELoss a b) (\<lambda>loss.
        (case backward_step L (optim st) (autoencoder st) im_batch of (p, optim') \<Rightarrow>
         ebind (setitem (mse_loss st) (ix st) loss) (\<lambda>m.
           Inr (st\<lparr>autoencoder := AE_load p (autoencoder st), optim := optim',
                   mse_loss := m, ix := ix st + 1\<rparr>))))))))"

text \<open>
  The block under \<^verbatim>\<open>torch.no_grad()\<close> at the end of an epoch: the loss over the whole
  training set is stored at index \<open>epoch\<close>, and so is the loss over the validation set when
  there is one.
\<close>

definition evaluate ::
  "device \<Rightarrow> 'a::linordered_field tensor \<Rightarrow> 'a tensor option \<Rightarrow> nat \<Rightarrow> ('a, 'o) train_state
     \<Rightarrow> error + ('a, 'o) train_state" where
  "evaluate device dataset val_dataset epoch st =
     ebind (dataset_loss (autoencoder st) device dataset) (\<lambda>floss.
     ebind (setitem (full_mse_loss st) epoch floss) (\<lambda>fm.
       (case val_dataset of
          None \<Rightarrow> Inr (st\<lparr>full_mse_loss := fm\<rparr>)
        | Some v \<Rightarrow>
            ebind (dataset_loss (autoencoder st) device v) (\<lambda>val_loss.
              (case full_val_loss st of
                 None \<Rightarrow> Inl TypeError
               | Some fv \<Rightarrow>
                   ebind (setitem fv epoch val_loss) (\<lambda>fv'.
                     Inr (st\<lparr>full_mse_loss := fm, full_val_loss := Some fv'\<rparr>)))))))"

text \<open>
  \<^verbatim>\<open>
  if epoch % 10 == 0:
    print(f'MSE Train Loss @ {epoch}: {full_mse_loss[epoch]}')
    if val_dataset is not None:
      print(f'MSE Val Loss @ {epoch}: {full_val_loss[epoch]}')
  \<close>
\<close>

definition report ::
  "'a tensor option \<Rightarrow> nat \<Rightarrow> ('a, 'o) train_state \<Rightarrow> error + ('a, 'o) train_state" where
  "report val_dataset epoch st =
     (if epoch mod 10 = 0 then
        ebind (getitem (full_mse_loss st) epoch) (\<lambda>a.
          (case val_dataset of
             None \<Rightarrow> Inr (st\<lparr>stdout := stdout st @ [MSE_Train_Loss epoch a]\<rparr>)
           | Some v \<Rightarrow>
               (case full_val_loss st of
                  None \<Rightarrow> Inl TypeError
                | Some fv \<Rightarrow>
                    ebind (getitem fv epoch) (\<lambda>b.
                      Inr (st\<lparr>stdout := stdout st @ [MSE_Train_Loss epoch a, MSE_Val_Loss epoch b]\<rparr>)))))
      else Inr st)"

text \<open>One pass of the loop over the epochs.\<close>

definition run_epoch ::
  "('a::linordered_field, 'o) torch \<Rightarrow> int \<Rightarrow> 'a tensor \<Rightarrow> nat \<Rightarrow> device \<Rightarrow> 'a tensor option \<Rightarrow> nat
     \<Rightarrow> ('a, 'o) train_state \<Rightarrow> nat \<Rightarrow> error + ('a, 'o) train_state" where
  "run_epoch L seed dataset n device val_dataset batch_size st epoch =
     ebind (loader L seed dataset n batch_size epoch) (\<lambda>batches.
     ebind (foldM (train_step L device batch_size) st batches) (\<lambda>st1.
     ebind (evaluate device dataset val_dataset epoch st1) (report val_dataset epoch)))"

text \<open>
  Two checks of the library on the integers it is given.
  \<^verbatim>\<open>torch.Generator().manual_seed(seed)\<close> takes a seed from \<open>- 2 ^ 63\<close> to \<open>2 ^ 64 - 1\<close>.
  \<^verbatim>\<open>torch.zeros(k, ...)\<close> takes a size that is not negative and fits a signed 64-bit
  integer. (Older releases of the library raise RuntimeError where the model says
  ValueError; no statement below depends on the difference.)
\<close>

definition manual_seed :: "int \<Rightarrow> error + unit" where
  "manual_seed seed = (if seed < - (2 ^ 63) \<or> 2 ^ 64 \<le> seed then Inl ValueError else Inr ())"

definition zeros_size :: "int \<Rightarrow> error + nat" where
  "zeros_size k =
     (if k < 0 then Inl RuntimeError else if 2 ^ 63 \<le> k then Inl ValueError else Inr (nat k))"

text \<open>
  The state before the first epoch (lines 105 to 130 of the source). The model goes to the
  global \<^verbatim>\<open>DEVICE\<close>, the buffers to the argument \<^verbatim>\<open>device\<close>. The generator is seeded
  before the data loader is built. The data loader's sampler refuses an empty dataset and
  its batch sampler a batch size that is not positive. The size of the per-step buffer is
  \<^verbatim>\<open>epochs * len(dataset) // batch_size\<close>, a floor division of the product.
\<close>

definition train_setup ::
  "globals \<Rightarrow> ('a::linordered_field, 'o) torch \<Rightarrow> 'a AE \<Rightarrow> 'a tensor \<Rightarrow> device \<Rightarrow> 'a tensor option
     \<Rightarrow> int \<Rightarrow> int \<Rightarrow> int \<Rightarrow> error + ('a, 'o) train_state" where
  "train_setup G L ae dataset device val_dataset epochs batch_size seed =
     (case DEVICE G of
        None \<Rightarrow> Inl NameError
      | Some d \<Rightarrow>
          ebind (manual_seed seed) (\<lambda>g_seed.
          ebind (len dataset) (\<lambda>n.
            if n = 0 then Inl ValueError
            else if batch_size \<le> 0 then Inl ValueError
            else
              ebind (zeros_size (epochs * int n div batch_size)) (\<lambda>steps.
              ebind (zeros_size epochs) (\<lambda>E.
                Inr \<lparr>autoencoder = AE_to ae d,
                     optim = Adam L (AE_to ae d),
                     mse_loss = zeros steps device,
                     full_mse_loss = zeros E device,
                     full_val_loss =
                       (case val_dataset of None \<Rightarrow> None | Some v \<Rightarrow> Some (zeros E device)),
                     ix = 0,
                     stdout = []\<rparr>)))))"

text \<open>
  What a call leaves behind: the returned pair \<^verbatim>\<open>(tr_mse, val_mse)\<close>, the model object
  that the caller passed in (moved to the CPU at the end) and the lines printed.
\<close>

record 'a outcome =
  tr_mse :: "'a tensor"
  val_mse :: "'a tensor option"
  model :: "'a AE"
  printed :: "'a line list"

definition train_loop ::
  "globals \<Rightarrow> ('a::linordered_field, 'o) torch \<Rightarrow> 'a AE \<Rightarrow> 'a tensor \<Rightarrow> device \<Rightarrow> 'a tensor option
     \<Rightarrow> int \<Rightarrow> int \<Rightarrow> int \<Rightarrow> nat \<Rightarrow> error + ('a, 'o) train_state" where
  "train_loop G L ae dataset device val_dataset epochs batch_size seed k =
     ebind (train_setup G L ae dataset device val_dataset epochs batch_size seed) (\<lambda>st0.
     ebind (len dataset) (\<lambda>n.
       foldM (run_epoch L seed dataset n device val_dataset (nat batch_size)) st0 [0..<k]))"

definition train_autoencoder ::
  "globals \<Rightarrow> ('a::linordered_field, 'o) torch \<Rightarrow> 'a AE \<Rightarrow> 'a tensor \<Rightarrow> device \<Rightarrow> 'a tensor option
     \<Rightarrow> int \<Rightarrow> int \<Rightarrow> int \<Rightarrow> error + 'a outcome" where
  "train_autoencoder G L ae dataset device val_dataset epochs batch_size seed =
     ebind (train_loop G L ae dataset device val_dataset epochs batch_size seed (nat epochs)) (\<lambda>st.
       Inr \<lparr>tr_mse = to (full_mse_loss st) CPU,
            val_mse = (case val_dataset of
                         None \<Rightarrow> None
                       | Some v \<Rightarrow> map_option (\<lambda>t. to t CPU) (full_val_loss st)),
            model = AE_to (autoencoder st) CPU,
            printed = stdout st\<rparr>)"

subsection \<open>The entry point\<close>

text \<open>
  \<^verbatim>\<open>
  x_a = np.random.choice(10000, size=10000)
  tmp = np.tile(np.arange(-1,2), (x_a.shape[0],1))
  x = np.tile(x_a.reshape(-1,1), [1, 3]) + tmp
  x = torch.tensor(x).float()
  \<close>
  The draw \<open>x_a\<close> is made by the numerical library under the seed that the module
  \<^verbatim>\<open>nmastandard\<close> has set; that module is not among the sources, and the draw is an
  argument of the model. Whatever \<^verbatim>\<open>nmastandard\<close> prints is not modelled either.
\<close>

definition main_x :: "int list \<Rightarrow> 'a::linordered_field tensor" where
  "main_x x_a =
     (let tmp = replicate (length x_a) [- 1, 0, 1];
          rows = map2 (map2 (+)) (map (replicate 3) x_a) tmp
      in \<lparr>shape = [length rows, 3], data = map of_int (concat rows), dev = CPU\<rparr>)"

text \<open>
  Python's slices along the first dimension, \<^verbatim>\<open>x[:k]\<close> and \<^verbatim>\<open>x[k:]\<close>: a negative bound
  counts from the end, and a bound outside the range is clamped.
\<close>

definition slice_bound :: "nat \<Rightarrow> int \<Rightarrow> nat" where
  "slice_bound n k = (if k < 0 then nat (max 0 (int n + k)) else min n (nat k))"

definition slice_to :: "'a tensor \<Rightarrow> int \<Rightarrow> error + 'a tensor" where
  "slice_to t k =
     (case shape t of
        [] \<Rightarrow> Inl IndexError
      | n # rest \<Rightarrow>
          Inr (t\<lparr>shape := slice_bound n k # rest,
                 data := take (slice_bound n k * prod_list rest) (data t)\<rparr>))"

definition slice_from :: "'a tensor \<Rightarrow> int \<Rightarrow> error + 'a tensor" where
  "slice_from t k =
     (case shape t of
        [] \<Rightarrow> Inl IndexError
      | n # rest \<Rightarrow>
          Inr (t\<lparr>shape := (n - slice_bound n k) # rest,
                 data := drop (slice_bound n k * prod_list rest) (data t)\<rparr>))"

text \<open>\<^verbatim>\<open>x.size(-1)\<close>.\<close>

definition size_last :: "'a tensor \<Rightarrow> error + nat" where
  "size_last t = (if shape t = [] then Inl IndexError else Inr (last (shape t)))"

text \<open>
  \<^verbatim>\<open>x_tr = x[:-x.size(0)//5]\<close> and \<^verbatim>\<open>x_val = x[-x.size(0)//5:]\<close>; the unary minus
  binds tighter than the floor division.
\<close>

definition main_x_tr :: "'a tensor \<Rightarrow> error + 'a tensor" where
  "main_x_tr t = ebind (size0 t) (\<lambda>n. slice_to t ((- int n) div 5))"

definition main_x_val :: "'a tensor \<Rightarrow> error + 'a tensor" where
  "main_x_val t = ebind (size0 t) (\<lambda>n. slice_from t ((- int n) div 5))"

text \<open>
  The names bound when the \<^verbatim>\<open>__main__\<close> block ends, and the lines the block and the
  driver have printed.
\<close>

record 'a main_end =
  x_tr :: "'a tensor"
  x_val :: "'a tensor"
  vae :: "'a AE"
  loss :: "'a tensor"
  val_loss :: "'a tensor option"
  console :: "'a line list"

text \<open>
  \<^verbatim>\<open>
  DEVICE = nmas.set_device()
  ...
  vae = AE(x.size(-1), 1, [5], [5])
  loss, val_loss = train_autoencoder(vae, x_tr, DEVICE, epochs=20, batch_size=250, seed=0)
  print(f'Final Training Loss: {loss}')
  print(f'Final Validation Loss: {val_loss}')
  \<close>
  \<open>set_device\<close> is the device that \<^verbatim>\<open>nmas.set_device()\<close> returns.
\<close>

definition main ::
  "('a::linordered_field, 'o) torch \<Rightarrow> (nat \<Rightarrow> 'a params) \<Rightarrow> device \<Rightarrow> int list
     \<Rightarrow> error + 'a main_end" where
  "main L init set_device x_a =
     (let x = main_x x_a in
      ebind (main_x_tr x) (\<lambda>tr.
      ebind (main_x_val x) (\<lambda>val.
      ebind (size_last x) (\<lambda>d.
      ebind (AE_init init d 1 [5] [5]) (\<lambda>ae.
      ebind (train_autoencoder \<lparr>DEVICE = Some set_device\<rparr> L ae tr set_device None 20 250 0)
        (\<lambda>res.
          Inr \<lparr>x_tr = tr, x_val = val, vae = model res,
               loss = tr_mse res, val_loss = val_mse res,
               console = printed res @
                 [Final_Training_Loss (tr_mse res), Final_Validation_Loss (val_mse res)]\<rparr>))))))"

subsection \<open>The architecture in the specification's words\<close>

text \<open>
  Affine layers from each dimension of a list to the next, with a ReLU after every layer
  except the last; \<open>init k\<close> is the draw of the first layer.
\<close>

fun mlp_spec :: "(nat \<Rightarrow> 'a params) \<Rightarrow> nat \<Rightarrow> nat list \<Rightarrow> 'a layer list" where
  "mlp_spec init k (a # b # c # ds) =
     nn_Linear (init k) a b # ReLU # mlp_spec init (Suc k) (b # c # ds)"
| "mlp_spec init k [a, b] = [nn_Linear (init k) a b]"
| "mlp_spec init k ds = []"

text \<open>
  The dimension that leaves a stack of layers fed with rows of dimension \<open>a\<close>, if every
  linear layer receives the dimension it expects.
\<close>

fun flow :: "nat \<Rightarrow> 'a layer list \<Rightarrow> nat option" where
  "flow a [] = Some a"
| "flow a (Linear i out W bs # ls) = (if a = i then flow out ls else None)"
| "flow a (ReLU # ls) = flow a ls"

definition ae_ok :: "'a AE \<Rightarrow> bool" where
  "ae_ok ae \<longleftrightarrow>
     (case flow (in_dim ae) (enc_model ae) of
        None \<Rightarrow> False
      | Some l \<Rightarrow> flow l (dec_model ae) = Some (in_dim ae))"

subsection \<open>Invariants of the driver's loop\<close>

text \<open>
  The loss buffers of a run of \<open>E\<close> epochs: one entry per epoch, and a validation buffer
  exactly when there is a validation dataset.
\<close>

definition bufs_ok :: "nat \<Rightarrow> 'a tensor option \<Rightarrow> ('a, 'o) train_state \<Rightarrow> bool" where
  "bufs_ok E val_dataset st \<longleftrightarrow>
     shape (full_mse_loss st) = [E] \<and> length (data (full_mse_loss st)) = E \<and>
     (case val_dataset of
        None \<Rightarrow> full_val_loss st = None
      | Some v \<Rightarrow>
          (case full_val_loss st of
             None \<Rightarrow> False
           | Some fv \<Rightarrow> shape fv = [E] \<and> length (data fv) = E))"

text \<open>
  The model keeps its architecture and its device, and the per-step buffer its \<open>M\<close>
  entries.
\<close>

definition model_ok :: "device \<Rightarrow> nat \<Rightarrow> nat \<Rightarrow> ('a, 'o) train_state \<Rightarrow> bool" where
  "model_ok device d M st \<longleftrightarrow>
     ae_ok (autoencoder st) \<and> in_dim (autoencoder st) = d \<and> placed (autoencoder st) = device \<and>
     shape (mse_loss st) = [M]"

text \<open>
  A validation dataset that the model accepts: at least one example, each flattening to
  the input dimension \<open>d\<close>.
\<close>

definition val_ok :: "nat \<Rightarrow> 'a tensor option \<Rightarrow> bool" where
  "val_ok d val_dataset \<longleftrightarrow>
     (case val_dataset of
        None \<Rightarrow> True
      | Some v \<Rightarrow> (case shape v of [] \<Rightarrow> False | m # r \<Rightarrow> 0 < m \<and> prod_list r = d))"

subsection \<open>The progress report in the specification's words\<close>

text \<open>
  What is printed for epoch \<open>e\<close>, given the two loss histories: at an epoch divisible by
  ten the training loss of that epoch, followed by its validation loss when there is a
  validation history; nothing at any other epoch.
\<close>

definition progress_lines :: "'a list \<Rightarrow> 'a list option \<Rightarrow> nat \<Rightarrow> 'a line list" where
  "progress_lines tr val e =
     (if e mod 10 = 0
      then MSE_Train_Loss e (tr ! e) # (case val of None \<Rightarrow> [] | Some v \<Rightarrow> [MSE_Val_Loss e (v ! e)])
      else [])"

subsection \<open>Training in the specification's words\<close>








subsection \<open>Concrete inputs\<close>

text \<open>
  A model with three inputs, one latent dimension and hidden layers of five units, as the
  entry point builds it; a stand-in for the library whose optimiser sets every weight to
  one and whose sampler visits the examples from the last to the first; two small
  datasets and a dataset of four examples.
\<close>

definition init0 :: "nat \<Rightarrow> rat params" where
  "init0 k = (\<lambda>r c. 0, \<lambda>r. 0)"

definition vae0 :: "rat AE" where
  "vae0 = projr (AE_init init0 3 1 [5] [5])"

definition lib0 :: "(rat, unit) torch" where
  "lib0 = \<lparr>Adam = (\<lambda>ae. ()),
           backward_step = (\<lambda>s ae b. (\<lambda>k. (\<lambda>r c. 1, \<lambda>r. 0), ())),
           randperm = (\<lambda>seed epoch n. rev [0..<n])\<rparr>"

definition ds2 :: "rat tensor" where
  "ds2 = \<lparr>shape = [2, 3], data = [0, 1, 2, 4, 5, 6], dev = CPU\<rparr>"

definition ds1 :: "rat tensor" where
  "ds1 = \<lparr>shape = [1, 3], data = [0, 1, 2], dev = CPU\<rparr>"

definition ds4 :: "rat tensor" where
  "ds4 = \<lparr>shape = [4, 3], data = [0, 1, 2, 4, 5, 6, 1, 2, 3, 7, 8, 9], dev = CPU\<rparr>"

definition empty_batch :: "rat tensor" where
  "empty_batch = \<lparr>shape = [0, 3], data = [], dev = CPU\<rparr>"

text \<open>
  The smallest model the constructor accepts, and datasets of a single one-dimensional
  example for it.
\<close>

definition ae1 :: "rat AE" where
  "ae1 = projr (AE_init init0 1 1 [1] [1])"

definition pt :: "rat tensor" where
  "pt = \<lparr>shape = [1, 1], data = [2], dev = CPU\<rparr>"

definition pt_val :: "rat tensor" where
  "pt_val = \<lparr>shape = [1, 1], data = [- 1], dev = CPU\<rparr>"

text \<open>Four one-dimensional examples, one of them negative.\<close>

definition pt4 :: "rat tensor" where
  "pt4 = \<lparr>shape = [4, 1], data = [2, - 1, 0, 3], dev = CPU\<rparr>"

text \<open>
  That model after one step of the stand-in optimiser, and the state of the driver at the
  end of the only batch of a first epoch.
\<close>

definition ae1_stepped :: "rat AE" where
  "ae1_stepped = AE_load (\<lambda>k. (\<lambda>r c. 1, \<lambda>r. 0)) ae1"

definition st_ex :: "(rat, unit) train_state" where
  "st_ex = \<lparr>autoencoder = ae1_stepped, optim = (),
            mse_loss = \<lparr>shape = [1], data = [4], dev = CPU\<rparr>,
            full_mse_loss = zeros 1 CPU, full_val_loss = Some (zeros 1 CPU),
            ix = 1, stdout = []\<rparr>"


definition res11 :: "rat outcome" where
  "res11 = \<lparr>tr_mse = \<lparr>shape = [11], data = replicate 11 0, dev = CPU\<rparr>,
            val_mse = Some \<lparr>shape = [11], data = replicate 11 1, dev = CPU\<rparr>,
            model = ae1_stepped,
            printed = [MSE_Train_Loss 0 0, MSE_Val_Loss 0 1, MSE_Train_Loss 10 0, MSE_Val_Loss 10 1]\<rparr>"

text \<open>
  What the driver returns for the four examples after two epochs in batches of two: the
  stepped model reconstructs every example but the negative one, which it sends to zero.
\<close>

definition res4 :: "rat outcome" where
  "res4 = \<lparr>tr_mse = \<lparr>shape = [2], data = [1 / 4, 1 / 4], dev = CPU\<rparr>,
           val_mse = None,
           model = ae1_stepped,
           printed = [MSE_Train_Loss 0 (1 / 4)]\<rparr>"


text \<open>A draw for the entry point: the integers from 0 to 9999 in order.\<close>

definition draw0 :: "int list" where
  "draw0 = map int [0..<10000]"

section \<open>Properties\<close>

subsection \<open>Errors and the constructor\<close>



lemma ebind_Inl [simp]: "ebind (Inl e) f = Inl e"
  by (simp add: ebind_def)

lemma ebind_Inr [simp]: "ebind (Inr x) f = f x"
  by (simp add: ebind_def)

lemma ebind_eq_Inr: "ebind m f = Inr y \<longleftrightarrow> (\<exists>x. m = Inr x \<and> f x = Inr y)"
  by (cases m) simp_all

lemma mlp_layers_Cons:
  "xs \<noteq> [] \<Longrightarrow> mlp_layers init k a (x # xs) b =
     ebind (mlp_layers init (Suc k) x xs b) (\<lambda>ls. Inr (nn_Linear (init k) a x # ReLU # ls))"
proof -
  assume ne: "xs \<noteq> []"
  then obtain y ys where xs: "xs = y # ys" by (cases xs) auto
  have idx: "[0..<length xs] = 0 # map Suc [0..<length ys]"
    unfolding xs by (simp add: upt_conv_Cons map_Suc_upt del: upt_Suc)
  show ?thesis
    using ne by (simp add: mlp_layers_def idx comp_def del: upt_Suc) (simp add: xs)
qed

lemma mlp_layers_single:
  "mlp_layers init k a [x] b = Inr [nn_Linear (init k) a x, ReLU, nn_Linear (init (Suc k)) x b]"
  by (simp add: mlp_layers_def)

lemma mlp_layers_spec:
  "lst \<noteq> [] \<Longrightarrow> mlp_layers init k a lst b = Inr (mlp_spec init k (a # lst @ [b]))"
proof (induction lst arbitrary: k a)
  case Nil
  then show ?case by simp
next
  case (Cons x xs)
  show ?case
  proof (cases xs)
    case Nil
    then show ?thesis by (simp add: mlp_layers_single)
  next
    case (Cons y ys)
    then have "xs \<noteq> []" by simp
    then show ?thesis
      using Cons.IH [of "Suc k" x] by (simp add: mlp_layers_Cons Cons)
  qed
qed

lemma count_linear_mlp_spec: "length ds \<ge> 2 \<Longrightarrow> count_linear (mlp_spec init k ds) = length ds - 1"
  by (induction init k ds rule: mlp_spec.induct) (simp_all add: nn_Linear_def)



lemma flow_mlp_spec: "length ds \<ge> 2 \<Longrightarrow> flow (hd ds) (mlp_spec init k ds) = Some (last ds)"
  by (induction init k ds rule: mlp_spec.induct) (simp_all add: nn_Linear_def)

lemma flow_load_params: "flow a (load_params p k ls) = flow a ls"
  by (induction p k ls arbitrary: a rule: load_params.induct) simp_all

lemma count_linear_load_params: "count_linear (load_params p k ls) = count_linear ls"
  by (induction p k ls rule: load_params.induct) simp_all

lemma Sequential_flow:
  "flow a ls = Some b \<Longrightarrow> shape x = pre @ [a] \<Longrightarrow> dev x = d \<Longrightarrow>
     \<exists>y. Sequential d ls x = Inr y \<and> shape y = pre @ [b] \<and> dev y = d"
proof (induction ls arbitrary: a x)
  case Nil
  then show ?case by simp
next
  case (Cons l ls)
  show ?case
  proof (cases l)
    case (Linear i out W bs)
    let ?y = "\<lparr>shape = butlast (shape x) @ [out],
               data = concat (map (affine W bs) (rows_of (prod_list (butlast (shape x))) i (data x))),
               dev = dev x\<rparr>"
    from Cons.prems Linear have ai: "a = i" and fl: "flow out ls = Some b"
      by (simp_all split: if_splits)
    have step: "layer_fwd d l x = Inr ?y"
      using Cons.prems ai by (simp add: Linear)
    have "shape ?y = pre @ [out]" "dev ?y = d"
      using Cons.prems by simp_all
    from Cons.IH [OF fl this] step show ?thesis by simp
  next
    case ReLU
    let ?y = "x\<lparr>data := map (max 0) (data x)\<rparr>"
    from Cons.prems ReLU have fl: "flow a ls = Some b" by simp
    have "shape ?y = pre @ [a]" "dev ?y = d"
      using Cons.prems by simp_all
    from Cons.IH [OF fl this] show ?thesis by (simp add: ReLU)
  qed
qed

lemma forward_ok:
  assumes ok: "ae_ok ae"
    and sh: "shape x = n # rest" and n: "0 < n"
    and flat: "prod_list rest = in_dim ae"
    and d: "dev x = placed ae"
  shows "\<exists>y. forward ae x = Inr y \<and> shape y = shape x \<and> dev y = dev x"
proof -
  from ok obtain l where enc: "flow (in_dim ae) (enc_model ae) = Some l"
    and dec: "flow l (dec_model ae) = Some (in_dim ae)"
    by (auto simp: ae_ok_def split: option.splits)
  let ?flat = "x\<lparr>shape := [n, numel x div n]\<rparr>"
  have ne: "numel x = n * in_dim ae"
    using sh flat by (simp add: numel_def)
  have v: "view_rows x n = Inr ?flat"
    using n ne by (simp add: view_rows_def)
  have shf: "shape ?flat = [n] @ [in_dim ae]" and df: "dev ?flat = placed ae"
    using n ne d by simp_all
  from Sequential_flow [OF enc shf df] obtain h where
    h: "Sequential (placed ae) (enc_model ae) ?flat = Inr h"
    and shh: "shape h = [n] @ [l]" and dh: "dev h = placed ae" by blast
  from Sequential_flow [OF dec shh dh] obtain y where
    y: "Sequential (placed ae) (dec_model ae) h = Inr y"
    and shy: "shape y = [n] @ [in_dim ae]" and dy: "dev y = placed ae" by blast
  have "numel y = prod_list (shape x)"
    using shy sh flat by (simp add: numel_def)
  then have "forward ae x = Inr (y\<lparr>shape := shape x\<rparr>)"
    using sh v h y by (simp add: forward_def size0_def encode_def decode_def view_def)
  then show ?thesis using dy d by simp
qed

text \<open>Without an example there is nothing to infer the row length from.\<close>

lemma forward_no_example: "shape x = 0 # rest \<Longrightarrow> forward ae x = Inl RuntimeError"
  by (simp add: forward_def size0_def view_rows_def)

lemma AE_init_Inr:
  assumes "AE_init init in_d latent_dim enc_lst dec_lst = Inr ae"
  shows "enc_lst \<noteq> []" and "dec_lst \<noteq> []"
    and "ae = \<lparr>in_dim = in_d, out_dim = in_d,
              enc_model = mlp_spec init 0 (in_d # enc_lst @ [latent_dim]),
              dec_model = mlp_spec init (length enc_lst + 1) (latent_dim # dec_lst @ [in_d]),
              placed = CPU\<rparr>"
proof -
  show e: "enc_lst \<noteq> []"
    using assms by (auto simp: AE_init_def mlp_layers_def)
  show d: "dec_lst \<noteq> []"
    using assms e by (auto simp: AE_init_def mlp_layers_spec) (simp add: mlp_layers_def)
  show "ae = \<lparr>in_dim = in_d, out_dim = in_d,
              enc_model = mlp_spec init 0 (in_d # enc_lst @ [latent_dim]),
              dec_model = mlp_spec init (length enc_lst + 1) (latent_dim # dec_lst @ [in_d]),
              placed = CPU\<rparr>"
    using assms e d by (simp add: AE_init_def mlp_layers_spec)
qed

lemma AE_init_ok:
  assumes "AE_init init in_d latent_dim enc_lst dec_lst = Inr ae"
  shows "ae_ok ae" and "in_dim ae = in_d"
proof -
  note r = AE_init_Inr [OF assms]
  have "flow in_d (mlp_spec init 0 (in_d # enc_lst @ [latent_dim])) = Some latent_dim"
    using flow_mlp_spec [of "in_d # enc_lst @ [latent_dim]" init 0] by simp
  moreover have "flow latent_dim
      (mlp_spec init (length enc_lst + 1) (latent_dim # dec_lst @ [in_d])) = Some in_d"
    using flow_mlp_spec [of "latent_dim # dec_lst @ [in_d]" init "length enc_lst + 1"] by simp
  ultimately show "ae_ok ae" by (simp add: r(3) ae_ok_def)
  show "in_dim ae = in_d" by (simp add: r(3))
qed

lemma ae_ok_to [simp]: "ae_ok (AE_to ae d) = ae_ok ae"
  by (simp add: ae_ok_def AE_to_def split: option.splits)

lemma ae_ok_load [simp]: "ae_ok (AE_load p ae) = ae_ok ae"
  by (simp add: ae_ok_def AE_load_def flow_load_params split: option.splits)

lemma size0_Inr: "size0 t = Inr n \<longleftrightarrow> (\<exists>rest. shape t = n # rest)"
  by (auto simp: size0_def split: list.splits)

lemma len_Inr: "len t = Inr n \<longleftrightarrow> (\<exists>rest. shape t = n # rest)"
  by (auto simp: len_def split: list.splits)

lemma setitem_Inr:
  "setitem t k v = Inr t' \<longleftrightarrow>
     (\<exists>n rest. shape t = n # rest \<and> k < n \<and> t' = t\<lparr>data := (data t)[k := v]\<rparr>)"
  by (auto simp: setitem_def ebind_eq_Inr size0_Inr)

lemma getitem_Inr:
  "getitem t k = Inr v \<longleftrightarrow> (\<exists>n rest. shape t = n # rest \<and> k < n \<and> v = data t ! k)"
  by (auto simp: getitem_def ebind_eq_Inr size0_Inr)

lemma foldM_append:
  "foldM f s (xs @ ys) = ebind (foldM f s xs) (\<lambda>s'. foldM f s' ys)"
  by (induction xs arbitrary: s) (simp_all add: ebind_def split: sum.splits)

subsection \<open>What a step, an evaluation and a report leave alone\<close>

lemma train_step_frame:
  assumes "train_step L device bs st batch = Inr st'"
  shows "ix st' = Suc (ix st)"
    and "full_mse_loss st' = full_mse_loss st"
    and "full_val_loss st' = full_val_loss st"
    and "stdout st' = stdout st"
    and "\<exists>n rest. shape (mse_loss st) = n # rest \<and> ix st < n"
    and "shape (mse_loss st') = shape (mse_loss st)"
proof -
  obtain p s where b: "backward_step L (optim st) (autoencoder st) (to batch device) = (p, s)"
    by (cases "backward_step L (optim st) (autoencoder st) (to batch device)")
  from assms obtain v m where m: "setitem (mse_loss st) (ix st) v = Inr m"
    and st': "st' = st\<lparr>autoencoder := AE_load p (autoencoder st), optim := s,
                      mse_loss := m, ix := ix st + 1\<rparr>"
    unfolding train_step_def Let_def b by (auto simp: ebind_eq_Inr)
  show "ix st' = Suc (ix st)" "full_mse_loss st' = full_mse_loss st"
    "full_val_loss st' = full_val_loss st" "stdout st' = stdout st"
    by (simp_all add: st')
  show "\<exists>n rest. shape (mse_loss st) = n # rest \<and> ix st < n"
    using m by (auto simp: setitem_Inr)
  show "shape (mse_loss st') = shape (mse_loss st)"
    using m by (auto simp: setitem_Inr st')
qed

lemma foldM_train_step_frame:
  assumes "foldM (train_step L device bs) st batches = Inr st'"
    and "shape (mse_loss st) = [M]" and "ix st \<le> M"
  shows "ix st' = ix st + length batches \<and> ix st' \<le> M \<and> shape (mse_loss st') = [M]
     \<and> full_mse_loss st' = full_mse_loss st \<and> full_val_loss st' = full_val_loss st
     \<and> stdout st' = stdout st"
  using assms
proof (induction batches arbitrary: st)
  case Nil
  then show ?case by simp
next
  case (Cons b batches)
  from Cons.prems(1) obtain st1 where s1: "train_step L device bs st b = Inr st1"
    and rest: "foldM (train_step L device bs) st1 batches = Inr st'"
    by (auto simp: ebind_eq_Inr)
  note f = train_step_frame [OF s1]
  have "shape (mse_loss st1) = [M]" "ix st1 \<le> M"
    using f Cons.prems(2) by auto
  from Cons.IH [OF rest this] f show ?case by simp
qed

lemma evaluate_frame:
  assumes "evaluate device dataset val_dataset epoch st = Inr st'"
  shows "autoencoder st' = autoencoder st" and "optim st' = optim st"
    and "mse_loss st' = mse_loss st" and "ix st' = ix st" and "stdout st' = stdout st"
  using assms unfolding evaluate_def
  by (auto simp: ebind_eq_Inr split: option.splits)

lemma report_frame:
  assumes "report val_dataset epoch st = Inr st'"
  shows "autoencoder st' = autoencoder st" and "optim st' = optim st"
    and "mse_loss st' = mse_loss st" and "ix st' = ix st"
    and "full_mse_loss st' = full_mse_loss st" and "full_val_loss st' = full_val_loss st"
  using assms unfolding report_def
  by (auto simp: ebind_eq_Inr split: option.splits if_splits)

subsection \<open>Counting the steps\<close>

lemma chunks_Nil [simp]: "chunks b [] = []"
  by (simp add: chunks.simps)

lemma chunks_step: "0 < b \<Longrightarrow> xs \<noteq> [] \<Longrightarrow> chunks b xs = take b xs # chunks b (drop b xs)"
  by (subst chunks.simps) simp

lemma ceil_div_Suc:
  fixes b n :: nat
  assumes "0 < b" and "0 < n"
  shows "(n + b - 1) div b = Suc ((n - 1) div b)"
proof -
  have e: "n + b - 1 = n - 1 + b" using assms(2) by arith
  show ?thesis unfolding e using assms(1) by (simp only: div_add_self2)
qed

lemma length_chunks: "0 < b \<Longrightarrow> length (chunks b xs) = (length xs + b - 1) div b"
proof (induction b xs rule: chunks.induct)
  case (1 b xs)
  show ?case
  proof (cases "xs = []")
    case True
    with 1(2) show ?thesis by simp
  next
    case False
    then have pos: "0 < length xs" by simp
    have ih: "length (chunks b (drop b xs)) = (length (drop b xs) + b - 1) div b"
      using 1(1) [OF _ 1(2)] False 1(2) by blast
    have step: "length (chunks b xs) = Suc (length (chunks b (drop b xs)))"
      by (simp only: chunks_step [OF 1(2) False] length_Cons)
    have goal: "(length xs + b - 1) div b = Suc ((length xs - 1) div b)"
      by (rule ceil_div_Suc [OF 1(2) pos])
    show ?thesis
    proof (cases "b \<le> length xs")
      case True
      then have "length (drop b xs) + b - 1 = length xs - 1" by simp
      then show ?thesis by (simp only: step ih goal)
    next
      case False
      then have d: "drop b xs = []" by simp
      have "(length xs - 1) div b = 0" using False pos by simp
      then show ?thesis by (simp only: step d chunks_Nil goal list.size)
    qed
  qed
qed

lemma sampler_ok_length: "sampler_ok L \<Longrightarrow> length (randperm L seed epoch n) = n"
proof -
  assume "sampler_ok L"
  then have d: "distinct (randperm L seed epoch n)"
    and s: "set (randperm L seed epoch n) = {0..<n}"
    by (simp_all add: sampler_ok_def)
  have "length (randperm L seed epoch n) = card (set (randperm L seed epoch n))"
    using d by (simp only: distinct_card)
  then show ?thesis by (simp add: s)
qed

lemma run_epoch_count:
  assumes "run_epoch L seed dataset n device val_dataset bs st epoch = Inr st'"
    and "shape (mse_loss st) = [M]" and "ix st \<le> M"
  shows "ix st' = ix st + length (chunks bs (randperm L seed epoch n))"
    and "ix st' \<le> M" and "shape (mse_loss st') = [M]"
proof -
  from assms(1) obtain batches st1 st2 where
    b: "loader L seed dataset n bs epoch = Inr batches"
    and f: "foldM (train_step L device bs) st batches = Inr st1"
    and e: "evaluate device dataset val_dataset epoch st1 = Inr st2"
    and r: "report val_dataset epoch st2 = Inr st'"
    unfolding run_epoch_def by (auto simp: ebind_eq_Inr)
  from b have len: "length batches = length (chunks bs (randperm L seed epoch n))"
    by (auto simp: loader_def split: if_splits)
  note c = foldM_train_step_frame [OF f assms(2,3)]
  note ef = evaluate_frame [OF e]
  note rf = report_frame [OF r]
  show "ix st' = ix st + length (chunks bs (randperm L seed epoch n))"
    using c ef rf len by simp
  show "ix st' \<le> M" using c ef rf by simp
  show "shape (mse_loss st') = [M]" using c ef rf by simp
qed

lemma foldM_run_epoch_count:
  assumes "foldM (run_epoch L seed dataset n device val_dataset bs) st es = Inr st'"
    and "shape (mse_loss st) = [M]" and "ix st \<le> M"
    and "sampler_ok L" and "0 < bs"
  shows "ix st' = ix st + length es * ((n + bs - 1) div bs) \<and> ix st' \<le> M"
  using assms(1,2,3)
proof (induction es arbitrary: st)
  case Nil
  then show ?case by simp
next
  case (Cons e es)
  from Cons.prems(1) obtain st1 where
    s1: "run_epoch L seed dataset n device val_dataset bs st e = Inr st1"
    and rest: "foldM (run_epoch L seed dataset n device val_dataset bs) st1 es = Inr st'"
    by (auto simp: ebind_eq_Inr)
  note c = run_epoch_count [OF s1 Cons.prems(2,3)]
  have "length (chunks bs (randperm L seed e n)) = (n + bs - 1) div bs"
    by (simp add: length_chunks [OF assms(5)] sampler_ok_length [OF assms(4)])
  with Cons.IH [OF rest c(3) c(2)] c(1) show ?case by simp
qed

lemma ceil_div_not_dvd:
  fixes b n :: nat
  assumes "0 < b" and "\<not> b dvd n"
  shows "(n + b - 1) div b = Suc (n div b)"
proof -
  have r: "n mod b \<noteq> 0" using assms(2) by (simp add: dvd_eq_mod_eq_0)
  then obtain m where n: "n = Suc m" by (cases n) auto
  have "Suc m div b = m div b"
    using r by (simp add: n div_Suc)
  moreover have "(Suc m + b - 1) div b = Suc ((Suc m - 1) div b)"
    by (rule ceil_div_Suc [OF assms(1)]) simp
  ultimately show ?thesis by (simp add: n)
qed

lemma steps_exceed_buffer:
  fixes b E n :: nat
  assumes "0 < b" and "0 < E" and "\<not> b dvd n"
  shows "(E * n) div b < E * ((n + b - 1) div b)"
proof -
  have "n < Suc (n div b) * b"
    using assms(1) dividend_less_div_times [OF assms(1), of n] by (simp add: mult.commute)
  then have "E * n < E * (Suc (n div b) * b)"
    using assms(2) by simp
  then have "E * n < (E * Suc (n div b)) * b"
    by (simp only: mult.assoc)
  then have "(E * n) div b < E * Suc (n div b)"
    using assms(1) by (simp only: div_less_iff_less_mult)
  then show ?thesis by (simp only: ceil_div_not_dvd [OF assms(1,3)])
qed

lemma manual_seed_Inr: "manual_seed seed = Inr u \<longleftrightarrow> - (2 ^ 63) \<le> seed \<and> seed < 2 ^ 64"
  by (auto simp: manual_seed_def)

lemma zeros_size_Inr: "zeros_size k = Inr m \<longleftrightarrow> 0 \<le> k \<and> k < 2 ^ 63 \<and> m = nat k"
  by (auto simp: zeros_size_def)

lemma train_setup_Inr:
  assumes "train_setup G L ae dataset device val_dataset epochs batch_size seed = Inr st0"
  shows "\<exists>d n rest. DEVICE G = Some d \<and> shape dataset = n # rest \<and> 0 < n \<and> 0 < batch_size
     \<and> 0 \<le> epochs
     \<and> st0 = \<lparr>autoencoder = AE_to ae d, optim = Adam L (AE_to ae d),
              mse_loss = zeros (nat epochs * n div nat batch_size) device,
              full_mse_loss = zeros (nat epochs) device,
              full_val_loss = map_option (\<lambda>v. zeros (nat epochs) device) val_dataset,
              ix = 0, stdout = []\<rparr>"
proof -
  from assms obtain d where d: "DEVICE G = Some d"
    by (cases "DEVICE G") (simp_all add: train_setup_def)
  from assms d obtain n where n: "len dataset = Inr n"
    by (auto simp: train_setup_def ebind_eq_Inr)
  then obtain rest where sh: "shape dataset = n # rest" by (auto simp: len_Inr)
  from assms d n have c: "0 < n" "0 < batch_size"
    by (auto simp: train_setup_def ebind_eq_Inr split: if_splits)
  from assms d n c obtain steps E where
    z: "zeros_size (epochs * int n div batch_size) = Inr steps" "zeros_size epochs = Inr E"
    and st0: "st0 = \<lparr>autoencoder = AE_to ae d, optim = Adam L (AE_to ae d),
                     mse_loss = zeros steps device,
                     full_mse_loss = zeros E device,
                     full_val_loss =
                       (case val_dataset of None \<Rightarrow> None | Some v \<Rightarrow> Some (zeros E device)),
                     ix = 0, stdout = []\<rparr>"
    by (auto simp: train_setup_def ebind_eq_Inr)
  from z have ep: "0 \<le> epochs" and E: "E = nat epochs"
    and steps: "steps = nat (epochs * int n div batch_size)"
    by (simp_all add: zeros_size_Inr)
  have "nat (epochs * int n div batch_size) = nat epochs * n div nat batch_size"
    using c ep by (simp add: nat_div_distrib nat_mult_distrib)
  moreover have "(case val_dataset of None \<Rightarrow> None | Some v \<Rightarrow> Some (zeros E device))
      = map_option (\<lambda>v. zeros (nat epochs) device) val_dataset"
    by (cases val_dataset) (simp_all add: E)
  ultimately show ?thesis
    using d sh c ep by (simp add: st0 E steps)
qed

subsection \<open>The loss buffers along a run\<close>

lemma bufs_ok_same:
  "full_mse_loss st' = full_mse_loss st \<Longrightarrow> full_val_loss st' = full_val_loss st \<Longrightarrow>
     bufs_ok E val st' = bufs_ok E val st"
  by (simp add: bufs_ok_def split: option.splits)

lemma foldM_train_step_keeps:
  assumes "foldM (train_step L device bs) st batches = Inr st'"
  shows "full_mse_loss st' = full_mse_loss st \<and> full_val_loss st' = full_val_loss st
     \<and> stdout st' = stdout st"
  using assms
proof (induction batches arbitrary: st)
  case Nil
  then show ?case by simp
next
  case (Cons b batches)
  from Cons.prems obtain st1 where s1: "train_step L device bs st b = Inr st1"
    and rest: "foldM (train_step L device bs) st1 batches = Inr st'"
    by (auto simp: ebind_eq_Inr)
  from Cons.IH [OF rest] train_step_frame(2,3,4) [OF s1] show ?case by simp
qed

text \<open>What the evaluation block writes, and where.\<close>

lemma evaluate_train_part:
  assumes "evaluate device dataset val_dataset epoch st = Inr st'"
    and "bufs_ok E val_dataset st"
  shows "epoch < E"
    and "shape (full_mse_loss st') = [E]" and "length (data (full_mse_loss st')) = E"
    and "dataset_loss (autoencoder st) device dataset = Inr (data (full_mse_loss st') ! epoch)"
    and "e \<noteq> epoch \<Longrightarrow> data (full_mse_loss st') ! e = data (full_mse_loss st) ! e"
proof -
  from assms(1) obtain floss fm where
    fl: "dataset_loss (autoencoder st) device dataset = Inr floss"
    and fm: "setitem (full_mse_loss st) epoch floss = Inr fm"
    unfolding evaluate_def by (auto simp: ebind_eq_Inr)
  from fm assms(2) have lt: "epoch < E"
    and fm': "fm = (full_mse_loss st)\<lparr>data := (data (full_mse_loss st))[epoch := floss]\<rparr>"
    by (auto simp: setitem_Inr bufs_ok_def)
  have st': "full_mse_loss st' = fm"
    using assms(1) fl fm unfolding evaluate_def
    by (cases val_dataset) (auto simp: ebind_eq_Inr split: option.splits)
  from assms(2) have b: "shape (full_mse_loss st) = [E]" "length (data (full_mse_loss st)) = E"
    by (simp_all add: bufs_ok_def)
  show "epoch < E" by (rule lt)
  show "shape (full_mse_loss st') = [E]" "length (data (full_mse_loss st')) = E"
    using b by (simp_all add: st' fm')
  show "dataset_loss (autoencoder st) device dataset = Inr (data (full_mse_loss st') ! epoch)"
    using b lt fl by (simp add: st' fm')
  show "e \<noteq> epoch \<Longrightarrow> data (full_mse_loss st') ! e = data (full_mse_loss st) ! e"
    by (simp add: st' fm')
qed

lemma evaluate_no_val:
  assumes "evaluate device dataset None epoch st = Inr st'"
  shows "full_val_loss st' = full_val_loss st"
  using assms unfolding evaluate_def by (auto simp: ebind_eq_Inr)

lemma evaluate_val_part:
  assumes "evaluate device dataset (Some v) epoch st = Inr st'"
    and "bufs_ok E (Some v) st"
  shows "\<exists>fv fv'. full_val_loss st = Some fv \<and> full_val_loss st' = Some fv'
           \<and> shape fv' = [E] \<and> length (data fv') = E
           \<and> dataset_loss (autoencoder st) device v = Inr (data fv' ! epoch)
           \<and> (\<forall>e. e \<noteq> epoch \<longrightarrow> data fv' ! e = data fv ! e)"
proof -
  from assms(2) obtain fv where fv: "full_val_loss st = Some fv"
    and fvs: "shape fv = [E]" "length (data fv) = E"
    by (auto simp: bufs_ok_def split: option.splits)
  from assms(1) fv obtain vl fv' where
    vl: "dataset_loss (autoencoder st) device v = Inr vl"
    and sv: "setitem fv epoch vl = Inr fv'"
    and st': "full_val_loss st' = Some fv'"
    unfolding evaluate_def by (auto simp: ebind_eq_Inr)
  from sv fvs have fv': "fv' = fv\<lparr>data := (data fv)[epoch := vl]\<rparr>" and lt: "epoch < E"
    by (auto simp: setitem_Inr)
  show ?thesis
    using fv vl fvs lt by (simp add: st' fv')
qed

lemma evaluate_bufs:
  assumes "evaluate device dataset val_dataset epoch st = Inr st'"
    and "bufs_ok E val_dataset st"
  shows "bufs_ok E val_dataset st'"
proof (cases val_dataset)
  case None
  with evaluate_train_part(2,3) [OF assms] evaluate_no_val [of device dataset epoch st st'] assms
  show ?thesis by (simp add: bufs_ok_def)
next
  case (Some v)
  with evaluate_train_part(2,3) [OF assms] evaluate_val_part [of device dataset v epoch st st' E] assms
  show ?thesis by (auto simp: bufs_ok_def)
qed

lemma report_prints:
  assumes "report val_dataset epoch st = Inr st'"
    and "bufs_ok E val_dataset st"
  shows "stdout st' = stdout st @
     progress_lines (data (full_mse_loss st)) (map_option data (full_val_loss st)) epoch"
proof (cases "epoch mod 10 = 0")
  case False
  with assms(1) show ?thesis by (simp add: report_def progress_lines_def)
next
  case True
  show ?thesis
  proof (cases val_dataset)
    case None
    then have "full_val_loss st = None" using assms(2) by (simp add: bufs_ok_def)
    with assms(1) True None show ?thesis
      by (auto simp: report_def progress_lines_def ebind_eq_Inr getitem_Inr)
  next
    case (Some v)
    then obtain fv where "full_val_loss st = Some fv"
      using assms(2) by (auto simp: bufs_ok_def split: option.splits)
    with assms(1) True Some show ?thesis
      by (auto simp: report_def progress_lines_def ebind_eq_Inr getitem_Inr)
  qed
qed

lemma report_bufs:
  "report val_dataset epoch st = Inr st' \<Longrightarrow> bufs_ok E val st' = bufs_ok E val st"
  using report_frame(5,6) [of val_dataset epoch st st'] by (rule bufs_ok_same)

text \<open>One epoch, seen from its result.\<close>

lemma run_epoch_parts:
  assumes "run_epoch L seed dataset n device val_dataset bs st epoch = Inr st'"
  obtains st1 st2 where
    "full_mse_loss st1 = full_mse_loss st" "full_val_loss st1 = full_val_loss st"
    "stdout st1 = stdout st"
    "evaluate device dataset val_dataset epoch st1 = Inr st2"
    "report val_dataset epoch st2 = Inr st'"
proof -
  from assms obtain batches st1 st2 where
    f: "foldM (train_step L device bs) st batches = Inr st1"
    and e: "evaluate device dataset val_dataset epoch st1 = Inr st2"
    and r: "report val_dataset epoch st2 = Inr st'"
    unfolding run_epoch_def by (auto simp: ebind_eq_Inr)
  from foldM_train_step_keeps [OF f] e r that show ?thesis by blast
qed

lemma run_epoch_train_part:
  assumes "run_epoch L seed dataset n device val_dataset bs st epoch = Inr st'"
    and "bufs_ok E val_dataset st"
  shows "epoch < E"
    and "bufs_ok E val_dataset st'"
    and "dataset_loss (autoencoder st') device dataset = Inr (data (full_mse_loss st') ! epoch)"
    and "e \<noteq> epoch \<Longrightarrow> data (full_mse_loss st') ! e = data (full_mse_loss st) ! e"
    and "stdout st' = stdout st @
           progress_lines (data (full_mse_loss st')) (map_option data (full_val_loss st')) epoch"
proof -
  from run_epoch_parts [OF assms(1)] obtain st1 st2 where
    k: "full_mse_loss st1 = full_mse_loss st" "full_val_loss st1 = full_val_loss st"
       "stdout st1 = stdout st"
    and e: "evaluate device dataset val_dataset epoch st1 = Inr st2"
    and r: "report val_dataset epoch st2 = Inr st'" by blast
  have b1: "bufs_ok E val_dataset st1"
    using assms(2) bufs_ok_same [OF k(1,2)] by simp
  note w = evaluate_train_part [OF e b1]
  note b2 = evaluate_bufs [OF e b1]
  note ef = evaluate_frame [OF e]
  note rf = report_frame [OF r]
  show "epoch < E" by (rule w(1))
  show "bufs_ok E val_dataset st'" using report_bufs [OF r] b2 by simp
  show "dataset_loss (autoencoder st') device dataset = Inr (data (full_mse_loss st') ! epoch)"
    using w(4) ef(1) rf(1,5) by simp
  show "e \<noteq> epoch \<Longrightarrow> data (full_mse_loss st') ! e = data (full_mse_loss st) ! e"
    using w(5) rf(5) k by simp
  show "stdout st' = stdout st @
           progress_lines (data (full_mse_loss st')) (map_option data (full_val_loss st')) epoch"
    using report_prints [OF r b2] ef(5) rf(5,6) k by simp
qed

lemma run_epoch_val_part:
  assumes "run_epoch L seed dataset n device (Some v) bs st epoch = Inr st'"
    and "bufs_ok E (Some v) st"
  shows "\<exists>fv fv'. full_val_loss st = Some fv \<and> full_val_loss st' = Some fv'
           \<and> dataset_loss (autoencoder st') device v = Inr (data fv' ! epoch)
           \<and> (\<forall>e. e \<noteq> epoch \<longrightarrow> data fv' ! e = data fv ! e)"
proof -
  from run_epoch_parts [OF assms(1)] obtain st1 st2 where
    k: "full_mse_loss st1 = full_mse_loss st" "full_val_loss st1 = full_val_loss st"
       "stdout st1 = stdout st"
    and e: "evaluate device dataset (Some v) epoch st1 = Inr st2"
    and r: "report (Some v) epoch st2 = Inr st'" by blast
  have b1: "bufs_ok E (Some v) st1"
    using assms(2) bufs_ok_same [OF k(1,2)] by simp
  from evaluate_val_part [OF e b1] evaluate_frame(1) [OF e] report_frame(1,6) [OF r] k(2)
  show ?thesis by auto
qed

lemma run_epoch_val_entry:
  assumes "run_epoch L seed dataset n device val_dataset bs st epoch = Inr st'"
    and "bufs_ok E val_dataset st" and "e \<noteq> epoch"
  shows "map_option (\<lambda>fv. data fv ! e) (full_val_loss st')
       = map_option (\<lambda>fv. data fv ! e) (full_val_loss st)"
proof (cases val_dataset)
  case None
  with assms(2) run_epoch_train_part(2) [OF assms(1,2)] show ?thesis
    by (simp add: bufs_ok_def)
next
  case (Some v)
  with run_epoch_val_part [of L seed dataset n device v bs st epoch st' E] assms
  show ?thesis by auto
qed

lemma progress_lines_entries:
  "progress_lines tr (map_option data fv) e =
     (if e mod 10 = 0
      then MSE_Train_Loss e (tr ! e) #
        (case map_option (\<lambda>t. data t ! e) fv of None \<Rightarrow> [] | Some a \<Rightarrow> [MSE_Val_Loss e a])
      else [])"
  by (cases fv) (simp_all add: progress_lines_def)

lemma run_epoch_lines_kept:
  assumes "run_epoch L seed dataset n device val_dataset bs st epoch = Inr st'"
    and "bufs_ok E val_dataset st" and "e \<noteq> epoch"
  shows "progress_lines (data (full_mse_loss st')) (map_option data (full_val_loss st')) e
       = progress_lines (data (full_mse_loss st)) (map_option data (full_val_loss st)) e"
  using run_epoch_train_part(4) [OF assms(1,2,3)] run_epoch_val_entry [OF assms]
  by (simp only: progress_lines_entries)

text \<open>The loop over the epochs, seen from its result.\<close>

lemma epochs_Inr:
  assumes "foldM (run_epoch L seed dataset n device val_dataset bs) st0 [0..<k] = Inr st"
    and "bufs_ok E val_dataset st0" and "stdout st0 = []"
  shows "k \<le> E \<and> bufs_ok E val_dataset st
     \<and> stdout st = concat (map (progress_lines (data (full_mse_loss st))
                                  (map_option data (full_val_loss st))) [0..<k])
     \<and> (\<forall>e<k. \<exists>st_e. foldM (run_epoch L seed dataset n device val_dataset bs) st0 [0..<Suc e]
                          = Inr st_e
            \<and> dataset_loss (autoencoder st_e) device dataset = Inr (data (full_mse_loss st) ! e)
            \<and> (\<forall>v. val_dataset = Some v \<longrightarrow> (\<exists>t. full_val_loss st = Some t
                  \<and> dataset_loss (autoencoder st_e) device v = Inr (data t ! e))))"
  using assms(1)
proof (induction k arbitrary: st)
  case 0
  then show ?case using assms(2,3) by simp
next
  case (Suc k)
  let ?run = "run_epoch L seed dataset n device val_dataset bs"
  from Suc.prems obtain sk where
    pre: "foldM ?run st0 [0..<k] = Inr sk" and last: "?run sk k = Inr st"
    by (auto simp: foldM_append ebind_eq_Inr)
  from Suc.IH [OF pre] have kE: "k \<le> E" and bk: "bufs_ok E val_dataset sk"
    and outk: "stdout sk = concat (map (progress_lines (data (full_mse_loss sk))
                                  (map_option data (full_val_loss sk))) [0..<k])"
    and valk: "\<forall>e<k. \<exists>st_e. foldM ?run st0 [0..<Suc e] = Inr st_e
            \<and> dataset_loss (autoencoder st_e) device dataset = Inr (data (full_mse_loss sk) ! e)
            \<and> (\<forall>v. val_dataset = Some v \<longrightarrow> (\<exists>t. full_val_loss sk = Some t
                  \<and> dataset_loss (autoencoder st_e) device v = Inr (data t ! e)))"
    by blast+
  note t = run_epoch_train_part [OF last bk]
  have lines: "map (progress_lines (data (full_mse_loss sk)) (map_option data (full_val_loss sk))) [0..<k]
      = map (progress_lines (data (full_mse_loss st)) (map_option data (full_val_loss st))) [0..<k]"
    using run_epoch_lines_kept [OF last bk] by (intro map_cong) auto
  have out: "stdout st = concat (map (progress_lines (data (full_mse_loss st))
                                  (map_option data (full_val_loss st))) [0..<Suc k])"
    using t(5) outk lines by simp
  have vals: "\<exists>st_e. foldM ?run st0 [0..<Suc e] = Inr st_e
            \<and> dataset_loss (autoencoder st_e) device dataset = Inr (data (full_mse_loss st) ! e)
            \<and> (\<forall>v. val_dataset = Some v \<longrightarrow> (\<exists>t. full_val_loss st = Some t
                  \<and> dataset_loss (autoencoder st_e) device v = Inr (data t ! e)))"
    if e: "e < Suc k" for e
  proof (cases "e = k")
    case True
    have "\<forall>v. val_dataset = Some v \<longrightarrow> (\<exists>t. full_val_loss st = Some t
                  \<and> dataset_loss (autoencoder st) device v = Inr (data t ! k))"
      using run_epoch_val_part [of L seed dataset n device _ bs sk k st E] last bk by auto
    with Suc.prems t(3) True show ?thesis by blast
  next
    case False
    then have ek: "e < k" "e \<noteq> k" using e by simp_all
    from valk ek obtain st_e where
      r: "foldM ?run st0 [0..<Suc e] = Inr st_e"
      and a: "dataset_loss (autoencoder st_e) device dataset = Inr (data (full_mse_loss sk) ! e)"
      and b: "\<forall>v. val_dataset = Some v \<longrightarrow> (\<exists>t. full_val_loss sk = Some t
                  \<and> dataset_loss (autoencoder st_e) device v = Inr (data t ! e))"
      by blast
    have a': "dataset_loss (autoencoder st_e) device dataset = Inr (data (full_mse_loss st) ! e)"
      using a t(4) [OF ek(2)] by simp
    have b': "\<forall>v. val_dataset = Some v \<longrightarrow> (\<exists>t. full_val_loss st = Some t
                  \<and> dataset_loss (autoencoder st_e) device v = Inr (data t ! e))"
    proof (intro allI impI)
      fix v assume v: "val_dataset = Some v"
      with b obtain t0 where t0: "full_val_loss sk = Some t0"
        and l0: "dataset_loss (autoencoder st_e) device v = Inr (data t0 ! e)" by blast
      from run_epoch_val_part [of L seed dataset n device v bs sk k st E] last bk v t0 ek(2)
      obtain t1 where "full_val_loss st = Some t1" "data t1 ! e = data t0 ! e" by auto
      with l0 show "\<exists>t. full_val_loss st = Some t
                  \<and> dataset_loss (autoencoder st_e) device v = Inr (data t ! e)" by simp
    qed
    from r a' b' show ?thesis by blast
  qed
  from t(1) t(2) out vals show ?case by (simp add: Suc_le_eq)
qed

subsection \<open>Runs that succeed\<close>

lemma AE_load_fields [simp]:
  "in_dim (AE_load p ae) = in_dim ae" "placed (AE_load p ae) = placed ae"
  by (simp_all add: AE_load_def)

lemma view_rows_Inr:
  "0 < n \<Longrightarrow> shape t = n # rest \<Longrightarrow> view_rows t n = Inr (t\<lparr>shape := [n, prod_list rest]\<rparr>)"
  by (simp add: view_rows_def numel_def)

lemma chunks_all_full:
  "0 < b \<Longrightarrow> b dvd length xs \<Longrightarrow> c \<in> set (chunks b xs) \<Longrightarrow> length c = b"
proof (induction b xs rule: chunks.induct)
  case (1 b xs)
  show ?case
  proof (cases "xs = []")
    case True
    with 1(4) show ?thesis by simp
  next
    case False
    then have "0 < length xs" by simp
    with 1(3) have le: "b \<le> length xs" by (simp add: dvd_imp_le)
    then have d: "b dvd length (drop b xs)" using 1(3) by (simp add: dvd_diff_nat)
    from 1(4) have "c = take b xs \<or> c \<in> set (chunks b (drop b xs))"
      by (simp add: chunks_step [OF 1(2) False])
    then show ?thesis
    proof
      assume "c = take b xs"
      then show ?thesis using le by simp
    next
      assume "c \<in> set (chunks b (drop b xs))"
      from 1(1) [OF _ 1(2) d this] 1(2) False show ?thesis by blast
    qed
  qed
qed

lemma length_chunks_dvd:
  assumes "0 < b" and "b dvd length xs"
  shows "length (chunks b xs) = length xs div b"
proof -
  from assms(2) obtain q where q: "length xs = b * q" by (rule dvdE)
  have "b * q \<le> b * q + b - 1" "b * q + b - 1 < b * Suc q"
    using assms(1) by simp_all
  then have "(b * q + b - 1) div b = q" by (rule div_nat_eqI)
  moreover have "b * q div b = q" using assms(1) by simp
  ultimately show ?thesis by (simp only: length_chunks [OF assms(1)] q)
qed

lemma train_step_ok:
  assumes "model_ok device d M st"
    and "shape batch = bs # rest" and "0 < bs" and "prod_list rest = d" and "ix st < M"
  shows "\<exists>st'. train_step L device bs st batch = Inr st' \<and> model_ok device d M st'"
proof -
  from assms(1) have ok: "ae_ok (autoencoder st)" and ind: "in_dim (autoencoder st) = d"
    and pl: "placed (autoencoder st) = device" and m: "shape (mse_loss st) = [M]"
    by (simp_all add: model_ok_def)
  let ?b = "to batch device"
  have sb: "shape ?b = bs # rest" and db: "dev ?b = placed (autoencoder st)"
    using assms(2) pl by (simp_all add: to_def)
  from forward_ok [OF ok sb assms(3) _ db] assms(4) ind obtain y where
    y: "forward (autoencoder st) ?b = Inr y" and sy: "shape y = bs # rest" and dy: "dev y = dev ?b"
    using sb by auto
  obtain p s where b: "backward_step L (optim st) (autoencoder st) ?b = (p, s)"
    by (cases "backward_step L (optim st) (autoencoder st) ?b")
  let ?st' = "st\<lparr>autoencoder := AE_load p (autoencoder st), optim := s,
      mse_loss := (mse_loss st)\<lparr>data := (data (mse_loss st))[ix st :=
        sum_list (map2 (\<lambda>a b. (a - b)\<^sup>2) (data y) (data ?b)) / of_nat (bs * prod_list rest)]\<rparr>,
      ix := ix st + 1\<rparr>"
  have "train_step L device bs st batch = Inr ?st'"
    unfolding train_step_def Let_def
    using y view_rows_Inr [OF assms(3) sy] view_rows_Inr [OF assms(3) sb] dy b m assms(5)
    by (simp add: MSELoss_def setitem_def size0_def numel_def)
  moreover have "model_ok device d M ?st'"
    using ok ind pl m by (simp add: model_ok_def)
  ultimately show ?thesis by blast
qed

lemma foldM_train_step_ok:
  assumes "model_ok device d M st"
    and "\<forall>b\<in>set batches. shape b = bs # rest" and "0 < bs" and "prod_list rest = d"
    and "ix st + length batches \<le> M"
  shows "\<exists>st'. foldM (train_step L device bs) st batches = Inr st' \<and> model_ok device d M st'"
  using assms(1,2,5)
proof (induction batches arbitrary: st)
  case Nil
  then show ?case by simp
next
  case (Cons b batches)
  have "shape b = bs # rest" "ix st < M" using Cons.prems by simp_all
  from train_step_ok [OF Cons.prems(1) this(1) assms(3,4) this(2)] obtain st1 where
    s1: "train_step L device bs st b = Inr st1" and m1: "model_ok device d M st1" by blast
  have "ix st1 + length batches \<le> M"
    using train_step_frame(1) [OF s1] Cons.prems(3) by simp
  from Cons.IH [OF m1 _ this] Cons.prems(2) s1 show ?case by simp
qed

lemma dataset_loss_ok:
  assumes "ae_ok ae" and "placed ae = device"
    and "shape ds = n # rest" and "0 < n" and "prod_list rest = in_dim ae"
  shows "\<exists>v. dataset_loss ae device ds = Inr v"
proof -
  let ?b = "to ds device"
  have sb: "shape ?b = n # rest" and db: "dev ?b = placed ae"
    using assms(2,3) by (simp_all add: to_def)
  from forward_ok [OF assms(1) sb assms(4,5) db] obtain y where
    y: "forward ae ?b = Inr y" and sy: "shape y = n # rest" and dy: "dev y = dev ?b"
    using sb by auto
  show ?thesis
    unfolding dataset_loss_def Let_def
    using y view_rows_Inr [OF assms(4) sy] view_rows_Inr [OF assms(4) sb] dy sb
    by (simp add: MSELoss_def size0_def)
qed

lemma val_ok_Some:
  "val_ok d (Some v) \<Longrightarrow> \<exists>m r. shape v = m # r \<and> 0 < m \<and> prod_list r = d"
  by (auto simp: val_ok_def split: list.splits)

lemma evaluate_ok:
  assumes "model_ok device d M st" and "bufs_ok E val_dataset st"
    and "shape dataset = n # rest" and "0 < n" and "prod_list rest = d"
    and "val_ok d val_dataset" and "epoch < E"
  shows "\<exists>st'. evaluate device dataset val_dataset epoch st = Inr st'"
proof -
  from assms(1) have ok: "ae_ok (autoencoder st)" and ind: "in_dim (autoencoder st) = d"
    and pl: "placed (autoencoder st) = device"
    by (simp_all add: model_ok_def)
  from dataset_loss_ok [OF ok pl assms(3,4)] assms(5) ind obtain floss where
    fl: "dataset_loss (autoencoder st) device dataset = Inr floss" by auto
  from assms(2,7) have fm: "setitem (full_mse_loss st) epoch floss =
      Inr ((full_mse_loss st)\<lparr>data := (data (full_mse_loss st))[epoch := floss]\<rparr>)"
    by (simp add: bufs_ok_def setitem_def size0_def)
  show ?thesis
  proof (cases val_dataset)
    case None
    then show ?thesis by (simp add: evaluate_def fl fm)
  next
    case (Some v)
    from val_ok_Some assms(6) Some obtain m r where
      v: "shape v = m # r" "0 < m" "prod_list r = d" by blast
    from dataset_loss_ok [OF ok pl v(1,2)] v(3) ind obtain vl where
      vl: "dataset_loss (autoencoder st) device v = Inr vl" by auto
    from assms(2) Some obtain fv where fv: "full_val_loss st = Some fv" "shape fv = [E]"
      by (auto simp: bufs_ok_def split: option.splits)
    have "setitem fv epoch vl = Inr (fv\<lparr>data := (data fv)[epoch := vl]\<rparr>)"
      using fv(2) assms(7) by (simp add: setitem_def size0_def)
    then show ?thesis by (simp add: evaluate_def fl fm Some vl fv(1))
  qed
qed

lemma report_ok:
  assumes "bufs_ok E val_dataset st" and "epoch < E"
  shows "\<exists>st'. report val_dataset epoch st = Inr st'"
proof (cases val_dataset)
  case None
  with assms show ?thesis
    by (simp add: report_def getitem_def size0_def bufs_ok_def)
next
  case (Some v)
  with assms obtain fv where "full_val_loss st = Some fv" "shape fv = [E]"
    by (auto simp: bufs_ok_def split: option.splits)
  with assms Some show ?thesis
    by (simp add: report_def getitem_def size0_def bufs_ok_def)
qed

lemma model_ok_same:
  "autoencoder st' = autoencoder st \<Longrightarrow> mse_loss st' = mse_loss st \<Longrightarrow>
     model_ok device d M st' = model_ok device d M st"
  by (simp add: model_ok_def)

lemma shape_stack_rows: "shape (stack_rows ds idxs) = length idxs # tl (shape ds)"
  by (simp add: stack_rows_def Let_def)

lemma run_epoch_ok:
  assumes "model_ok device d M st" and "bufs_ok E val_dataset st"
    and "shape dataset = n # rest" and "0 < n" and "prod_list rest = d" and "dev dataset = CPU"
    and "val_ok d val_dataset" and "epoch < E"
    and "sampler_ok L" and "0 < bs" and "bs dvd n"
    and "ix st + n div bs \<le> M"
  shows "\<exists>st'. run_epoch L seed dataset n device val_dataset bs st epoch = Inr st'
     \<and> model_ok device d M st' \<and> ix st' = ix st + n div bs"
proof -
  let ?perm = "randperm L seed epoch n"
  let ?batches = "map (stack_rows dataset) (chunks bs ?perm)"
  have lp: "length ?perm = n" by (rule sampler_ok_length [OF assms(9)])
  have ld: "loader L seed dataset n bs epoch = Inr ?batches"
    using assms(6) by (simp add: loader_def)
  have "bs dvd length ?perm" using assms(11) lp by simp
  from length_chunks_dvd [OF assms(10) this] have nb: "length ?batches = n div bs"
    by (simp add: lp)
  have sh: "\<forall>b\<in>set ?batches. shape b = bs # rest"
  proof
    fix b assume "b \<in> set ?batches"
    then obtain c where c: "c \<in> set (chunks bs ?perm)" and b: "b = stack_rows dataset c"
      by auto
    have "bs dvd length ?perm" using assms(11) lp by simp
    from chunks_all_full [OF assms(10) this c] show "shape b = bs # rest"
      by (simp add: b shape_stack_rows assms(3))
  qed
  have "ix st + length ?batches \<le> M" using assms(12) by (simp only: nb)
  from foldM_train_step_ok [OF assms(1) sh assms(10,5) this] obtain st1 where
    f: "foldM (train_step L device bs) st ?batches = Inr st1" and m1: "model_ok device d M st1"
    by blast
  have m: "shape (mse_loss st) = [M]" using assms(1) by (simp add: model_ok_def)
  have "ix st \<le> M" using assms(12) by simp
  note c = foldM_train_step_frame [OF f m this]
  have c1: "full_mse_loss st1 = full_mse_loss st" "full_val_loss st1 = full_val_loss st"
    and c2: "ix st1 = ix st + length ?batches"
    using c by blast+
  have b1: "bufs_ok E val_dataset st1"
    using assms(2) bufs_ok_same [OF c1] by simp
  from evaluate_ok [OF m1 b1 assms(3,4,5,7,8)] obtain st2 where
    e: "evaluate device dataset val_dataset epoch st1 = Inr st2" by blast
  note ef = evaluate_frame [OF e]
  from report_ok [OF evaluate_bufs [OF e b1] assms(8)] obtain st' where
    r: "report val_dataset epoch st2 = Inr st'" by blast
  note rf = report_frame [OF r]
  have "run_epoch L seed dataset n device val_dataset bs st epoch = Inr st'"
    by (simp add: run_epoch_def ld f e r)
  moreover have "model_ok device d M st'"
    using m1 ef rf by (simp add: model_ok_def)
  moreover have "ix st' = ix st + n div bs"
    using c2 ef(4) rf(4) by (simp only: nb)
  ultimately show ?thesis by blast
qed

lemma epochs_ok:
  assumes "model_ok device d (E * (n div bs)) st0" and "bufs_ok E val_dataset st0"
    and "ix st0 = 0" and "stdout st0 = []"
    and "shape dataset = n # rest" and "0 < n" and "prod_list rest = d" and "dev dataset = CPU"
    and "val_ok d val_dataset"
    and "sampler_ok L" and "0 < bs" and "bs dvd n"
  shows "k \<le> E \<Longrightarrow> \<exists>st. foldM (run_epoch L seed dataset n device val_dataset bs) st0 [0..<k] = Inr st
     \<and> model_ok device d (E * (n div bs)) st \<and> ix st = k * (n div bs)"
proof (induction k)
  case 0
  then show ?case using assms(1,3) by simp
next
  case (Suc k)
  let ?run = "run_epoch L seed dataset n device val_dataset bs"
  have "k \<le> E" using Suc.prems by simp
  from Suc.IH [OF this] obtain sk where pre: "foldM ?run st0 [0..<k] = Inr sk"
    and mk: "model_ok device d (E * (n div bs)) sk" and ik: "ix sk = k * (n div bs)"
    by blast
  have bk: "bufs_ok E val_dataset sk"
    using epochs_Inr [OF pre assms(2,4)] by blast
  have "Suc k * (n div bs) \<le> E * (n div bs)"
    using Suc.prems by (rule mult_le_mono1)
  then have room: "ix sk + n div bs \<le> E * (n div bs)" by (simp add: ik)
  have kE: "k < E" using Suc.prems by simp
  from run_epoch_ok [OF mk bk assms(5,6,7,8,9) kE assms(10,11,12) room] obtain st where
    r: "?run sk k = Inr st" and m: "model_ok device d (E * (n div bs)) st"
    and i: "ix st = ix sk + n div bs"
    by blast
  have "foldM ?run st0 [0..<Suc k] = Inr st"
    by (simp add: foldM_append pre r)
  moreover have "ix st = Suc k * (n div bs)" by (simp add: i ik)
  ultimately show ?case using m by blast
qed

subsection \<open>The whole call\<close>

lemma train_setup_state:
  assumes "train_setup G L ae dataset device val_dataset epochs batch_size seed = Inr st0"
  shows "bufs_ok (nat epochs) val_dataset st0" and "stdout st0 = []" and "ix st0 = 0"
    and "\<exists>d. DEVICE G = Some d \<and> autoencoder st0 = AE_to ae d"
    and "\<exists>n rest. shape dataset = n # rest
            \<and> shape (mse_loss st0) = [nat epochs * n div nat batch_size]"
proof -
  from train_setup_Inr [OF assms] obtain d n rest where
    d: "DEVICE G = Some d" and n: "shape dataset = n # rest"
    and st0: "st0 = \<lparr>autoencoder = AE_to ae d, optim = Adam L (AE_to ae d),
              mse_loss = zeros (nat epochs * n div nat batch_size) device,
              full_mse_loss = zeros (nat epochs) device,
              full_val_loss = map_option (\<lambda>v. zeros (nat epochs) device) val_dataset,
              ix = 0, stdout = []\<rparr>"
    by blast
  show "bufs_ok (nat epochs) val_dataset st0"
    by (cases val_dataset) (simp_all add: st0 bufs_ok_def zeros_def)
  show "stdout st0 = []" "ix st0 = 0" by (simp_all add: st0)
  show "\<exists>d. DEVICE G = Some d \<and> autoencoder st0 = AE_to ae d"
    using d by (simp add: st0)
  show "\<exists>n rest. shape dataset = n # rest
            \<and> shape (mse_loss st0) = [nat epochs * n div nat batch_size]"
    using n by (simp add: st0 zeros_def)
qed

lemma train_setup_ok:
  assumes "DEVICE G = Some d" and "shape dataset = n # rest" and "0 < n"
    and "0 < batch_size" and "0 \<le> epochs"
    and "- (2 ^ 63) \<le> seed" and "seed < 2 ^ 64"
    and "epochs * int n div batch_size < 2 ^ 63" and "epochs < 2 ^ 63"
  shows "\<exists>st0. train_setup G L ae dataset device val_dataset epochs batch_size seed = Inr st0"
proof -
  have "0 \<le> epochs * int n div batch_size"
    using assms(4,5) by (simp add: pos_imp_zdiv_nonneg_iff)
  then have "\<exists>m. zeros_size (epochs * int n div batch_size) = Inr m"
    using assms(8) by (simp add: zeros_size_Inr)
  moreover have "\<exists>E. zeros_size epochs = Inr E"
    using assms(5,9) by (simp add: zeros_size_Inr)
  moreover have "manual_seed seed = Inr ()"
    using assms(6,7) by (simp add: manual_seed_Inr)
  ultimately show ?thesis
    using assms(1,2,3,4) by (auto simp: train_setup_def len_def)
qed

lemma train_autoencoder_Inr:
  assumes "train_autoencoder G L ae dataset device val_dataset epochs batch_size seed = Inr res"
  obtains st0 n st where
    "train_setup G L ae dataset device val_dataset epochs batch_size seed = Inr st0"
    "len dataset = Inr n"
    "foldM (run_epoch L seed dataset n device val_dataset (nat batch_size)) st0 [0..<nat epochs]
       = Inr st"
    "res = \<lparr>tr_mse = to (full_mse_loss st) CPU,
            val_mse = (case val_dataset of None \<Rightarrow> None
                       | Some v \<Rightarrow> map_option (\<lambda>t. to t CPU) (full_val_loss st)),
            model = AE_to (autoencoder st) CPU, printed = stdout st\<rparr>"
  using assms unfolding train_autoencoder_def train_loop_def
  by (auto simp: ebind_eq_Inr)

lemma val_mse_data:
  assumes "bufs_ok E val_dataset st"
  shows "map_option data (case val_dataset of None \<Rightarrow> None
                       | Some v \<Rightarrow> map_option (\<lambda>t. to t CPU) (full_val_loss st))
       = map_option data (full_val_loss st)"
  using assms by (cases val_dataset) (auto simp: bufs_ok_def to_def split: option.splits)


lemma val_mse_None:
  assumes "bufs_ok E val_dataset st"
  shows "((case val_dataset of None \<Rightarrow> None
           | Some v \<Rightarrow> map_option (\<lambda>t. to t CPU) (full_val_loss st)) = None)
       = (val_dataset = None)"
  using assms by (cases val_dataset) (auto simp: bufs_ok_def split: option.splits)

lemma train_autoencoder_ok:
  assumes built: "AE_init init in_d latent_dim enc_lst dec_lst = Inr ae"
    and samp: "sampler_ok L" and dv: "DEVICE G = Some device"
    and sh: "shape dataset = n # rest" and n: "0 < n" and pr: "prod_list rest = in_d"
    and cpu: "dev dataset = CPU" and bs: "0 < batch_size" and dvd: "batch_size dvd int n"
    and ep: "0 \<le> epochs" and vo: "val_ok in_d val_dataset"
    and sd: "- (2 ^ 63) \<le> seed" "seed < 2 ^ 64"
    and sz: "epochs * int n div batch_size < 2 ^ 63" "epochs < 2 ^ 63"
  shows "\<exists>r. train_autoencoder G L ae dataset device val_dataset epochs batch_size seed = Inr r"
proof -
  from train_setup_ok [OF dv sh n bs ep sd sz] obtain st0 where
    s0: "train_setup G L ae dataset device val_dataset epochs batch_size seed = Inr st0" by blast
  note i = train_setup_state [OF s0]
  have bsn: "0 < nat batch_size" "nat batch_size dvd n"
    using bs dvd by (simp_all add: nat_dvd_iff)
  have M: "nat epochs * n div nat batch_size = nat epochs * (n div nat batch_size)"
    using bsn(2) by (simp add: div_mult_swap)
  have a0: "autoencoder st0 = AE_to ae device" using i(4) dv by simp
  have "ae_ok (AE_to ae device)"
    using AE_init_ok(1) [OF built] by simp
  moreover have "in_dim (AE_to ae device) = in_d" "placed (AE_to ae device) = device"
    using AE_init_ok(2) [OF built] by (simp_all add: AE_to_def)
  moreover have "shape (mse_loss st0) = [nat epochs * (n div nat batch_size)]"
    using i(5) sh M by simp
  ultimately have m0: "model_ok device in_d (nat epochs * (n div nat batch_size)) st0"
    by (simp add: model_ok_def a0)
  from epochs_ok [OF m0 i(1,3,2) sh n pr cpu vo samp bsn, of "nat epochs" seed] obtain st where
    "foldM (run_epoch L seed dataset n device val_dataset (nat batch_size)) st0 [0..<nat epochs]
       = Inr st" by blast
  then show ?thesis
    unfolding train_autoencoder_def train_loop_def using s0 sh by (simp add: len_def)
qed

lemma train_autoencoder_no_val:
  assumes "train_autoencoder G L ae dataset device None epochs batch_size seed = Inr res"
  shows "val_mse res = None"
  using assms unfolding train_autoencoder_def by (auto simp: ebind_eq_Inr)

subsection \<open>The entry point\<close>

lemma main_x_rows:
  "map2 (map2 (+)) (map (replicate 3) x_a) (replicate (length x_a) [- 1, 0, 1])
     = map (\<lambda>a. [a - 1, a, a + 1]) (x_a :: int list)"
  by (induction x_a) (simp_all add: numeral_3_eq_3)

lemma main_x_shape: "shape (main_x x_a) = [length x_a, 3]"
  unfolding main_x_def Let_def main_x_rows by simp


lemma main_x_dev: "dev (main_x x_a) = CPU"
  by (simp add: main_x_def Let_def)

lemma main_x_tr_10000:
  assumes "length x_a = 10000"
  shows "main_x_tr (main_x x_a) =
     Inr ((main_x x_a)\<lparr>shape := [8000, 3], data := take (24000) (data (main_x x_a))\<rparr>)"
  by (simp add: main_x_tr_def size0_def slice_to_def main_x_shape assms slice_bound_def)

lemma main_x_val_10000:
  assumes "length x_a = 10000"
  shows "main_x_val (main_x x_a) =
     Inr ((main_x x_a)\<lparr>shape := [2000, 3], data := drop (24000) (data (main_x x_a))\<rparr>)"
  by (simp add: main_x_val_def size0_def slice_from_def main_x_shape assms slice_bound_def)

lemma AE_init_5_5:
  "\<exists>ae. AE_init init d 1 [5] [5] = Inr ae"
  by (simp add: AE_init_def mlp_layers_def)

lemma main_runs:
  fixes L :: "('a::linordered_field, 'o) torch"
  assumes "sampler_ok L" and "length x_a = 10000"
  shows "\<exists>ae res. AE_init init 3 1 [5] [5] = Inr ae
     \<and> train_autoencoder \<lparr>DEVICE = Some set_device\<rparr> L ae
          ((main_x x_a)\<lparr>shape := [8000, 3], data := take (24000) (data (main_x x_a))\<rparr>)
          set_device None 20 250 0 = Inr res
     \<and> main L init set_device x_a =
          Inr \<lparr>x_tr = (main_x x_a)\<lparr>shape := [8000, 3], data := take (24000) (data (main_x x_a))\<rparr>,
               x_val = (main_x x_a)\<lparr>shape := [2000, 3], data := drop (24000) (data (main_x x_a))\<rparr>,
               vae = model res, loss = tr_mse res, val_loss = val_mse res,
               console = printed res @
                 [Final_Training_Loss (tr_mse res), Final_Validation_Loss (val_mse res)]\<rparr>"
proof -
  let ?tr = "(main_x x_a)\<lparr>shape := [8000, 3], data := take (24000) (data (main_x x_a))\<rparr>"
  obtain ae where ae: "AE_init init 3 1 [5] [5] = Inr ae"
    using AE_init_5_5 by blast
  have g: "DEVICE \<lparr>DEVICE = Some set_device\<rparr> = Some set_device" by simp
  have sh: "shape ?tr = 8000 # [3]" by simp
  have cpu: "dev ?tr = CPU" by (simp add: main_x_dev)
  have vo: "val_ok 3 None" by (simp add: val_ok_def)
  have "\<exists>r. train_autoencoder \<lparr>DEVICE = Some set_device\<rparr> L ae ?tr set_device None 20 250 0 = Inr r"
    by (rule train_autoencoder_ok [OF ae assms(1) g sh _ _ cpu _ _ _ vo]) simp_all
  then obtain res where
    res: "train_autoencoder \<lparr>DEVICE = Some set_device\<rparr> L ae ?tr set_device None 20 250 0 = Inr res"
    by blast
  have "size_last (main_x x_a :: 'a tensor) = Inr 3"
    by (simp add: size_last_def main_x_shape)
  then have "main L init set_device x_a =
          Inr \<lparr>x_tr = ?tr,
               x_val = (main_x x_a)\<lparr>shape := [2000, 3], data := drop (24000) (data (main_x x_a))\<rparr>,
               vae = model res, loss = tr_mse res, val_loss = val_mse res,
               console = printed res @
                 [Final_Training_Loss (tr_mse res), Final_Validation_Loss (val_mse res)]\<rparr>"
    unfolding main_def Let_def
    by (simp only: main_x_tr_10000 [OF assms(2)] main_x_val_10000 [OF assms(2)] ebind_Inr ae res)
  with ae res show ?thesis by blast
qed

subsection \<open>The driver against training in the specification's words\<close>
















subsection \<open>The concrete inputs\<close>

lemma vae0_built: "AE_init init0 3 1 [5] [5] = Inr vae0"
  by (simp add: vae0_def AE_init_def mlp_layers_def)


lemma sampler_ok_lib0: "sampler_ok lib0"
  by (simp add: sampler_ok_def lib0_def)

lemma length_draw0: "length draw0 = 10000"
  by (simp only: draw0_def length_map length_upt)


lemma run11: "train_autoencoder \<lparr>DEVICE = Some CPU\<rparr> lib0 ae1 pt CPU (Some pt_val) 11 1 0 = Inr res11"
  by code_simp

lemma run4: "train_autoencoder \<lparr>DEVICE = Some CPU\<rparr> lib0 ae1 pt4 CPU None 2 2 0 = Inr res4"
  by code_simp

lemma short_batch_view_error:
  "train_autoencoder \<lparr>DEVICE = Some CPU\<rparr> lib0 vae0 ds1 CPU None 1 2 0 = Inl RuntimeError"
  by code_simp

lemma short_batch_index_error:
  "train_autoencoder \<lparr>DEVICE = Some CPU\<rparr> lib0 vae0 ds4 CPU None 1 3 0 = Inl IndexError"
  by code_simp

lemma device_mismatch:
  "train_autoencoder \<lparr>DEVICE = Some CUDA\<rparr> lib0 ae1 pt CPU None 1 1 0 = Inl RuntimeError"
  by code_simp

section \<open>The claims\<close>

subsection \<open>The shape of a reconstruction\<close>

text \<open>
  Claim C1, as the code has it. Let a model be built by the constructor with input
  dimension \<open>in_d\<close> (whatever its parameter values) and moved to a device \<open>d\<close>. For every
  dense, contiguous tensor \<open>x\<close> of the element type of the parameters, on that device,
  whose first dimension \<open>n\<close> is at least one and whose remaining dimensions multiply to
  \<open>in_d\<close>, \<^verbatim>\<open>forward\<close> returns a tensor of the shape of \<open>x\<close>. (The type \<open>'a tensor\<close>
  holds those tensors and no other: a tensor of another element type, or one that is not
  contiguous, is outside the statement.)
\<close>

theorem forward_shape:
  assumes "AE_init init in_d latent_dim enc_lst dec_lst = Inr ae"
    and "shape x = n # rest" and "0 < n" and "prod_list rest = in_d" and "dev x = d"
  shows "\<exists>y. forward (AE_to ae d) x = Inr y \<and> shape y = shape x"
proof -
  have ok: "ae_ok (AE_to ae d)"
    using AE_init_ok(1) [OF assms(1)] by simp
  have "prod_list rest = in_dim (AE_to ae d)" "dev x = placed (AE_to ae d)"
    using AE_init_ok(2) [OF assms(1)] assms(4,5) by (simp_all add: AE_to_def)
  from forward_ok [OF ok assms(2,3) this] show ?thesis by blast
qed

theorem forward_shape_witness:
  "AE_init init0 3 1 [5] [5] = Inr vae0 \<and> shape ds2 = 2 # [3] \<and> (0::nat) < 2
     \<and> prod_list [3] = (3::nat) \<and> dev ds2 = CPU
     \<and> (\<exists>y. forward (AE_to vae0 CPU) ds2 = Inr y \<and> shape y = shape ds2)"
proof -
  have h: "shape ds2 = 2 # [3]" "(0::nat) < 2" "prod_list [3] = (3::nat)" "dev ds2 = CPU"
    by (simp_all add: ds2_def)
  from forward_shape [OF vae0_built h] vae0_built h show ?thesis by blast
qed

text \<open>
  The claim as it is written also covers a tensor with no example: its first dimension,
  zero, is its number of examples and its remaining dimension is \<open>in_dim\<close>. There
  \<^verbatim>\<open>x.view(x.size(0), -1)\<close> raises (for every model, by \<open>forward_no_example\<close>).
\<close>

theorem forward_empty_batch_counterexample:
  "AE_init init0 3 1 [5] [5] = Inr vae0 \<and> shape empty_batch = [0, 3]
     \<and> prod_list [3] = in_dim vae0 \<and> dev empty_batch = placed vae0
     \<and> forward vae0 empty_batch = Inl RuntimeError"
  by (simp add: vae0_built empty_batch_def forward_def size0_def view_rows_def)
    (simp add: vae0_def AE_init_def mlp_layers_def)

subsection \<open>The evaluation block and the parameters\<close>

text \<open>
  Claim C2. Whenever the block under \<^verbatim>\<open>torch.no_grad()\<close> completes, for any epoch, any
  dataset and any validation dataset (or none), the model it leaves is the model it found:
  every layer and every parameter value is unchanged.
\<close>

theorem evaluation_keeps_parameters:
  "evaluate device dataset val_dataset epoch st = Inr st' \<Longrightarrow> autoencoder st' = autoencoder st"
  by (rule evaluate_frame)

theorem evaluation_keeps_parameters_witness:
  "evaluate CPU pt (Some pt_val) 0 st_ex =
     Inr (st_ex\<lparr>full_mse_loss := \<lparr>shape = [1], data = [0], dev = CPU\<rparr>,
               full_val_loss := Some \<lparr>shape = [1], data = [1], dev = CPU\<rparr>\<rparr>)
   \<and> autoencoder (st_ex\<lparr>full_mse_loss := \<lparr>shape = [1], data = [0], dev = CPU\<rparr>,
               full_val_loss := Some \<lparr>shape = [1], data = [1], dev = CPU\<rparr>\<rparr>) = autoencoder st_ex"
proof -
  have e: "evaluate CPU pt (Some pt_val) 0 st_ex =
     Inr (st_ex\<lparr>full_mse_loss := \<lparr>shape = [1], data = [0], dev = CPU\<rparr>,
               full_val_loss := Some \<lparr>shape = [1], data = [1], dev = CPU\<rparr>\<rparr>)"
    by code_simp
  from evaluation_keeps_parameters [OF e] e show ?thesis by blast
qed

subsection \<open>Batches that do not fill\<close>

text \<open>
  Claim C4, as the code has it. If the sampler visits every example once per epoch and
  \<^verbatim>\<open>epochs\<close> is at least one, a call of \<^verbatim>\<open>train_autoencoder\<close> that returns has
  received a dataset whose length is an exact multiple of \<^verbatim>\<open>batch_size\<close>.
\<close>

theorem batch_size_divides:
  assumes "sampler_ok L" and "0 < epochs"
    and "train_autoencoder G L ae dataset device val_dataset epochs batch_size seed = Inr res"
  shows "\<exists>n. len dataset = Inr n \<and> batch_size dvd int n"
proof -
  from assms(3) obtain st st0 n where
    s0: "train_setup G L ae dataset device val_dataset epochs batch_size seed = Inr st0"
    and n: "len dataset = Inr n"
    and run: "foldM (run_epoch L seed dataset n device val_dataset (nat batch_size)) st0
                [0..<nat epochs] = Inr st"
    unfolding train_autoencoder_def train_loop_def by (auto simp: ebind_eq_Inr)
  from train_setup_Inr [OF s0] n have bs: "0 < batch_size"
    and m: "mse_loss st0 = zeros (nat epochs * n div nat batch_size) device"
    and i0: "ix st0 = 0"
    by (auto simp: len_Inr)
  have sh: "shape (mse_loss st0) = [nat epochs * n div nat batch_size]"
    by (simp add: m zeros_def)
  have "ix st = nat epochs * ((n + nat batch_size - 1) div nat batch_size)
      \<and> ix st \<le> nat epochs * n div nat batch_size"
    using foldM_run_epoch_count [OF run sh _ assms(1)] bs i0 by simp
  then have le: "nat epochs * ((n + nat batch_size - 1) div nat batch_size)
      \<le> nat epochs * n div nat batch_size" by simp
  have "nat batch_size dvd n"
  proof (rule ccontr)
    assume "\<not> nat batch_size dvd n"
    from steps_exceed_buffer [OF _ _ this, of "nat epochs"] bs assms(2) le
    show False by simp
  qed
  then have "batch_size dvd int n"
    using bs by (metis int_dvd_int_iff nat_0_le order_less_imp_le)
  with n show ?thesis by blast
qed

theorem batch_size_divides_witness:
  "sampler_ok lib0 \<and> (0::int) < 2
   \<and> train_autoencoder \<lparr>DEVICE = Some CPU\<rparr> lib0 ae1 pt4 CPU None 2 2 0 = Inr res4
   \<and> len pt4 = Inr 4
   \<and> (\<exists>n. len pt4 = Inr n \<and> (2::int) dvd int n)"
proof -
  have p: "(0::int) < 2" by simp
  have l: "len pt4 = Inr 4" by (simp add: len_def pt4_def)
  from batch_size_divides [OF sampler_ok_lib0 p run4] sampler_ok_lib0 p run4 l
  show ?thesis by blast
qed

text \<open>
  The claim as it is written has no condition on \<^verbatim>\<open>epochs\<close>. With no epoch to run no
  batch is drawn: here a call with one example and a batch size of two returns, with
  empty histories, although two does not divide one. (With one epoch, a final batch that
  is too small stops the call in one of two ways: \<open>short_batch_view_error\<close> and
  \<open>short_batch_index_error\<close> above show one of each.)
\<close>

theorem no_epoch_counterexample:
  "train_autoencoder \<lparr>DEVICE = Some CPU\<rparr> lib0 vae0 ds1 CPU None 0 2 0 =
     Inr \<lparr>tr_mse = \<lparr>shape = [0], data = [], dev = CPU\<rparr>, val_mse = None,
          model = vae0, printed = []\<rparr>
   \<and> len ds1 = Inr 1 \<and> \<not> (2::int) dvd int 1"
  by (simp add: train_autoencoder_def train_loop_def train_setup_def manual_seed_def
      zeros_size_def len_def ds1_def zeros_def
      to_def AE_to_def vae0_def AE_init_def mlp_layers_def)

subsection \<open>The loss histories\<close>



subsection \<open>The progress report\<close>

text \<open>
  Claim C9. What a call that returns has printed is, epoch by epoch in order, the line
  with the training loss of the epoch (followed by the line with its validation loss when
  there is a validation history) for the epochs divisible by ten, epoch 0 included, and
  nothing for any other epoch; and there is a validation history exactly when a
  validation dataset was given.
\<close>

theorem progress_report:
  assumes "train_autoencoder G L ae dataset device val_dataset epochs batch_size seed = Inr res"
  shows "printed res = concat (map (progress_lines (data (tr_mse res))
                                     (map_option data (val_mse res))) [0..<nat epochs])
     \<and> (val_mse res = None) = (val_dataset = None)"
proof -
  from train_autoencoder_Inr [OF assms] obtain st0 m st where
    s0: "train_setup G L ae dataset device val_dataset epochs batch_size seed = Inr st0"
    and f: "foldM (run_epoch L seed dataset m device val_dataset (nat batch_size)) st0
              [0..<nat epochs] = Inr st"
    and res: "res = \<lparr>tr_mse = to (full_mse_loss st) CPU,
            val_mse = (case val_dataset of None \<Rightarrow> None
                       | Some v \<Rightarrow> map_option (\<lambda>t. to t CPU) (full_val_loss st)),
            model = AE_to (autoencoder st) CPU, printed = stdout st\<rparr>"
    by blast
  note i = train_setup_state [OF s0]
  from epochs_Inr [OF f i(1,2)] have b: "bufs_ok (nat epochs) val_dataset st"
    and out: "stdout st = concat (map (progress_lines (data (full_mse_loss st))
                                  (map_option data (full_val_loss st))) [0..<nat epochs])"
    by blast+
  have "printed res = concat (map (progress_lines (data (tr_mse res))
                                     (map_option data (val_mse res))) [0..<nat epochs])"
    using out by (simp add: res val_mse_data [OF b] to_def)
  moreover have "(val_mse res = None) = (val_dataset = None)"
    using val_mse_None [OF b] by (simp add: res)
  ultimately show ?thesis by blast
qed

theorem progress_report_witness:
  "train_autoencoder \<lparr>DEVICE = Some CPU\<rparr> lib0 ae1 pt CPU (Some pt_val) 11 1 0 = Inr res11
   \<and> printed res11 = concat (map (progress_lines (data (tr_mse res11))
                                     (map_option data (val_mse res11))) [0..<nat 11])
   \<and> printed res11 =
       [MSE_Train_Loss 0 0, MSE_Val_Loss 0 1, MSE_Train_Loss 10 0, MSE_Val_Loss 10 1]"
  using progress_report [OF run11] run11 by (simp add: res11_def)

subsection \<open>The global device\<close>



subsection \<open>The architecture\<close>

text \<open>
  Claim C6, as the code has it. For lists of hidden sizes that are not empty, the
  constructor returns a model whose encoder is the stack of affine layers (each with a
  bias) from \<open>in_dim\<close> through \<open>enc_lst\<close> to \<open>latent_dim\<close> with a ReLU after every layer but
  the last, \<open>length enc_lst + 1\<close> affine layers in all; whose decoder is the same kind of
  stack from \<open>latent_dim\<close> through \<open>dec_lst\<close> to \<open>in_dim\<close>; and whose \<^verbatim>\<open>forward\<close> flattens
  its argument to one row per example, encodes, decodes and restores the argument's shape.
\<close>

theorem constructor_architecture:
  assumes "enc_lst \<noteq> []" and "dec_lst \<noteq> []"
  shows "\<exists>ae. AE_init init in_d latent_dim enc_lst dec_lst = Inr ae
     \<and> enc_model ae = mlp_spec init 0 (in_d # enc_lst @ [latent_dim])
     \<and> dec_model ae = mlp_spec init (length enc_lst + 1) (latent_dim # dec_lst @ [in_d])
     \<and> count_linear (enc_model ae) = length enc_lst + 1
     \<and> count_linear (dec_model ae) = length dec_lst + 1
     \<and> flow in_d (enc_model ae) = Some latent_dim
     \<and> flow latent_dim (dec_model ae) = Some in_d
     \<and> forward ae x =
         ebind (size0 x) (\<lambda>n. ebind (view_rows x n) (\<lambda>flat_x.
           ebind (encode ae flat_x) (\<lambda>h. ebind (decode ae h) (\<lambda>y. view y (shape x)))))"
proof -
  let ?ae = "\<lparr>in_dim = in_d, out_dim = in_d,
              enc_model = mlp_spec init 0 (in_d # enc_lst @ [latent_dim]),
              dec_model = mlp_spec init (length enc_lst + 1) (latent_dim # dec_lst @ [in_d]),
              placed = CPU\<rparr>"
  have "AE_init init in_d latent_dim enc_lst dec_lst = Inr ?ae"
    using assms by (simp add: AE_init_def mlp_layers_spec)
  moreover have "count_linear (enc_model ?ae) = length enc_lst + 1"
    "count_linear (dec_model ?ae) = length dec_lst + 1"
    by (simp_all add: count_linear_mlp_spec)
  moreover have "flow in_d (enc_model ?ae) = Some latent_dim"
    using flow_mlp_spec [of "in_d # enc_lst @ [latent_dim]" init 0] by simp
  moreover have "flow latent_dim (dec_model ?ae) = Some in_d"
    using flow_mlp_spec [of "latent_dim # dec_lst @ [in_d]" init "length enc_lst + 1"] by simp
  ultimately show ?thesis by (simp add: forward_def)
qed

theorem constructor_architecture_witness:
  "[5::nat] \<noteq> [] \<and> [5::nat] \<noteq> []
   \<and> AE_init init0 3 1 [5] [5] = Inr vae0
   \<and> enc_model vae0 = [nn_Linear (init0 0) 3 5, ReLU, nn_Linear (init0 1) 5 1]
   \<and> dec_model vae0 = [nn_Linear (init0 2) 1 5, ReLU, nn_Linear (init0 3) 5 3]
   \<and> count_linear (enc_model vae0) = 2 \<and> count_linear (dec_model vae0) = 2"
proof -
  have h: "[5::nat] \<noteq> []" by simp
  from constructor_architecture [OF h h, of init0 3 1] obtain ae where
    b: "AE_init init0 3 1 [5] [5] = Inr ae"
    and e: "enc_model ae = mlp_spec init0 0 (3 # [5] @ [1])"
    and d: "dec_model ae = mlp_spec init0 (length [5::nat] + 1) (1 # [5] @ [3])"
    and c: "count_linear (enc_model ae) = length [5::nat] + 1"
       "count_linear (dec_model ae) = length [5::nat] + 1"
    by blast
  from b vae0_built have ae: "ae = vae0" by simp
  have "enc_model vae0 = [nn_Linear (init0 0) 3 5, ReLU, nn_Linear (init0 1) 5 1]"
    using e by (simp add: ae)
  moreover have "dec_model vae0 = [nn_Linear (init0 2) 1 5, ReLU, nn_Linear (init0 3) 5 3]"
    using d by (simp add: ae numeral_2_eq_2 numeral_3_eq_3)
  moreover have "count_linear (enc_model vae0) = 2" "count_linear (dec_model vae0) = 2"
    using c by (simp_all add: ae)
  ultimately show ?thesis using h vae0_built by blast
qed

text \<open>
  With an empty list of hidden sizes the claim as written announces a single affine layer;
  the constructor reads \<^verbatim>\<open>enc_lst[0]\<close> and raises.
\<close>

theorem no_hidden_layer_counterexample:
  "AE_init init0 3 1 [] [5] = Inl IndexError"
  by (simp add: AE_init_def mlp_layers_def)

subsection \<open>The entry point\<close>



subsection \<open>The validation part\<close>

text \<open>
  Claim C10. The entry point cuts the dataset into its first 8000 examples (24000 values)
  and its last 2000 examples, and trains on the first part with no validation dataset;
  the validation loss that the call returns is therefore \<open>None\<close>, and so is the one
  printed on the last line.
\<close>

theorem validation_split_unused:
  fixes L :: "('a::linordered_field, 'o) torch"
  assumes "sampler_ok L" and "length x_a = 10000"
  shows "\<exists>ae res e. AE_init init 3 1 [5] [5] = Inr ae
     \<and> main L init set_device x_a = Inr e
     \<and> shape (x_tr e) = [8000, 3] \<and> data (x_tr e) = take (24000) (data (main_x x_a))
     \<and> shape (x_val e) = [2000, 3] \<and> data (x_val e) = drop (24000) (data (main_x x_a))
     \<and> train_autoencoder \<lparr>DEVICE = Some set_device\<rparr> L ae (x_tr e) set_device None 20 250 0
          = Inr res
     \<and> val_loss e = val_mse res \<and> val_loss e = None
     \<and> last (console e) = Final_Validation_Loss None"
proof -
  from main_runs [OF assms, of init set_device] obtain ae res where
    ae: "AE_init init 3 1 [5] [5] = Inr ae"
    and res: "train_autoencoder \<lparr>DEVICE = Some set_device\<rparr> L ae
          ((main_x x_a)\<lparr>shape := [8000, 3], data := take (24000) (data (main_x x_a))\<rparr>)
          set_device None 20 250 0 = Inr res"
    and m: "main L init set_device x_a =
          Inr \<lparr>x_tr = (main_x x_a)\<lparr>shape := [8000, 3], data := take (24000) (data (main_x x_a))\<rparr>,
               x_val = (main_x x_a)\<lparr>shape := [2000, 3], data := drop (24000) (data (main_x x_a))\<rparr>,
               vae = model res, loss = tr_mse res, val_loss = val_mse res,
               console = printed res @
                 [Final_Training_Loss (tr_mse res), Final_Validation_Loss (val_mse res)]\<rparr>"
    by blast
  note none = train_autoencoder_no_val [OF res]
  show ?thesis
    by (rule exI [of _ ae], rule exI [of _ res], rule exI, intro conjI, rule ae, rule m)
       (simp_all add: res none)
qed

theorem validation_split_unused_witness:
  "sampler_ok lib0 \<and> length draw0 = 10000
   \<and> (\<exists>ae res e. AE_init init0 3 1 [5] [5] = Inr ae
     \<and> main lib0 init0 CPU draw0 = Inr e
     \<and> shape (x_tr e) = [8000, 3] \<and> data (x_tr e) = take (24000) (data (main_x draw0))
     \<and> shape (x_val e) = [2000, 3] \<and> data (x_val e) = drop (24000) (data (main_x draw0))
     \<and> train_autoencoder \<lparr>DEVICE = Some CPU\<rparr> lib0 ae (x_tr e) CPU None 20 250 0 = Inr res
     \<and> val_loss e = val_mse res \<and> val_loss e = None
     \<and> last (console e) = Final_Validation_Loss None)"
  using validation_split_unused [OF sampler_ok_lib0 length_draw0, of init0 CPU]
    sampler_ok_lib0 length_draw0
  by blast

end
